theory Spec2Isabelle
  imports Complex_Main
begin

section \<open>JavaScript values and exceptions\<close>

text \<open>
  The embedding follows \<^verbatim>\<open>src/src/LiveStream.js\<close>. JavaScript numbers are modelled as
  exact reals (no IEEE rounding), a property that may be \<^verbatim>\<open>undefined\<close> as an
  \<open>option\<close>, and an exception as the left summand of a sum type.
\<close>

datatype js_error =
    TypeError        \<comment> \<open>property access or method call on \<^verbatim>\<open>undefined\<close>\<close>
  | ReferenceError   \<comment> \<open>use of an identifier that is bound nowhere\<close>
  | SyntaxError      \<comment> \<open>\<^verbatim>\<open>JSON.parse\<close> of a malformed text\<close>
  | ClientError      \<comment> \<open>a call of the fabric client that rejects\<close>

section \<open>Insertions\<close>

record insertion =
  insertion_time :: real
  duration :: real
  audio_abr_duration :: real
  video_abr_duration :: real
  playout :: string

text \<open>
  \<^verbatim>\<open>Array.prototype.splice(start, deleteCount)\<close> and \<^verbatim>\<open>splice(start)\<close>: the first
  component is the array of removed elements (the value of the call), the second is the
  array as the call leaves it (the mutation).
\<close>

definition splice :: "nat \<Rightarrow> nat \<Rightarrow> 'a list \<Rightarrow> 'a list \<times> 'a list" where
  "splice start deleteCount xs =
     (take deleteCount (drop start xs), take start xs @ drop (start + deleteCount) xs)"

definition splice_rest :: "nat \<Rightarrow> 'a list \<Rightarrow> 'a list \<times> 'a list" where
  "splice_rest start xs = (drop start xs, take start xs)"

text \<open>
  The \<^verbatim>\<open>for\<close> loop of \<^verbatim>\<open>Insertion\<close> (lines 714 to 742). \<open>currentTime\<close> is the local
  of that name: the source initialises it to \<open>-1\<close> and never assigns it again, so the
  loop passes it on unchanged. The function \<^verbatim>\<open>append\<close> called at line 717 is bound
  nowhere in the module, so reaching the call throws a ReferenceError. The result is
  the array after the loop and the flag \<^verbatim>\<open>insertionDone\<close>.

  In the insert branch with \<open>i > 0\<close> the array literal is evaluated left to right: the
  first \<^verbatim>\<open>splice(0, i)\<close> empties the first \<open>i\<close> elements out of the array, and the
  second \<^verbatim>\<open>splice(i)\<close> then works on what is left.
\<close>

function Insertion_loop ::
  "bool \<Rightarrow> real \<Rightarrow> insertion \<Rightarrow> real \<Rightarrow> insertion list \<Rightarrow> nat
     \<Rightarrow> js_error + (insertion list \<times> bool)" where
  "Insertion_loop remove insertionTime newInsertion currentTime insertions i =
     (if i < length insertions then
        (if insertion_time (insertions ! i) \<le> currentTime then Inl ReferenceError
         else if remove then
           (if insertion_time (insertions ! i) = insertionTime
            then Inr (snd (splice i 1 insertions), False)
            else Insertion_loop remove insertionTime newInsertion currentTime insertions (Suc i))
         else
           (if insertion_time (insertions ! i) > insertionTime
            then
              (if i > 0 then
                 (let (front, left) = splice 0 i insertions;
                      (back, left') = splice_rest i left
                  in Inr (front @ [newInsertion] @ back, True))
               else
                 (let (back, left) = splice_rest i insertions
                  in Inr ([newInsertion] @ back, True)))
            else Insertion_loop remove insertionTime newInsertion currentTime insertions (Suc i)))
      else Inr (insertions, False))"
  by pat_completeness auto
termination
  by (relation "measure (\<lambda>(r, t, n, c, xs, i). length xs - i)") auto

declare Insertion_loop.simps [simp del]

text \<open>
  Lines 702 to 751 of \<^verbatim>\<open>Insertion\<close>: the new record, the loop and the append at the
  end. The result is the pair of \<^verbatim>\<open>errs\<close> and the new array.
\<close>

definition newInsertion_of :: "real \<Rightarrow> real \<Rightarrow> string \<Rightarrow> insertion" where
  "newInsertion_of insertionTime duration' targetHash =
     \<lparr> insertion_time = insertionTime,
       duration = duration',
       audio_abr_duration = 2.005333,
       video_abr_duration = 2.002002,
       playout = ''/qfab/'' @ targetHash @ ''/rep/playout'' \<rparr>"

definition Insertion_edit ::
  "bool \<Rightarrow> real \<Rightarrow> real \<Rightarrow> string \<Rightarrow> insertion list
     \<Rightarrow> js_error + (string list \<times> insertion list)" where
  "Insertion_edit remove insertionTime duration' targetHash insertions =
     (let errs = [];
          currentTime = - 1;
          newInsertion = newInsertion_of insertionTime duration' targetHash
      in case Insertion_loop remove insertionTime newInsertion currentTime insertions 0 of
           Inl e \<Rightarrow> Inl e
         | Inr (insertions', insertionDone) \<Rightarrow>
             Inr (errs,
                  if \<not> remove \<and> \<not> insertionDone then insertions' @ [newInsertion]
                  else insertions'))"

section \<open>Metadata documents\<close>

text \<open>
  The metadata of a content object, as far as the stream functions read it. A property
  the functions test against \<^verbatim>\<open>undefined\<close>, or reach through, is an \<open>option\<close>.
\<close>

record fabric_config =
  ingress_node_api :: "string option"
  edge_write_token :: "string option"

record recording_params =
  origin_url :: "string option"

record recording_config =
  recording_params :: "recording_params option"

record video_finalized_parts_info =
  n_parts :: real
  last_finalization_time :: real

record period =
  live_recording_handle :: "string option"
  recording_start_time_epoch_sec :: real
  start_time_epoch_sec :: real
  end_time_epoch_sec :: real
  video_finalized_parts_info :: "video_finalized_parts_info option"

record recordings =
  recording_sequence :: "int option"
  live_offering :: "period list option"

record playout_config =
  interleaves :: "insertion list option"

record live_recording =
  fabric_config :: "fabric_config option"
  recording_config :: "recording_config option"
  recordings :: "recordings option"
  playout_config :: "playout_config option"

record meta =
  live_recording :: "live_recording option"

section \<open>The fabric, the files and the clock as inputs\<close>

record conf =
  objectId :: "string option"

datatype liveconf_file =
    Unreadable                          \<comment> \<open>\<^verbatim>\<open>readFileSync\<close> throws\<close>
  | Malformed                           \<comment> \<open>the file is not JSON\<close>
  | Streams "string \<Rightarrow> conf option"

datatype got_error =
    HTTPError nat      \<comment> \<open>a response came, with this status code\<close>
  | RequestError       \<comment> \<open>no response: the error has no \<^verbatim>\<open>response\<close> property\<close>

datatype lro_body =
    Unparsable                 \<comment> \<open>\<^verbatim>\<open>JSON.parse\<close> throws on the body\<close>
  | Parsed "string option"     \<comment> \<open>the \<^verbatim>\<open>state\<close> property of the parsed body\<close>

text \<open>
  What one call of \<^verbatim>\<open>Status\<close> or \<^verbatim>\<open>Insertion\<close> gets from outside: the stream
  table \<^verbatim>\<open>liveconf.json\<close>, the answers of the fabric client (library id of an object;
  metadata by library id, object id and write token; URL by write token and call path;
  outcome of a metadata replace), the answer of \<^verbatim>\<open>got\<close> for a URL, and the clock in
  milliseconds.
\<close>

record world =
  liveconf :: liveconf_file
  ContentObjectLibraryId :: "string option \<Rightarrow> js_error + string"
  ContentObjectMetadata :: "string \<Rightarrow> string option \<Rightarrow> string option \<Rightarrow> js_error + meta"
  FabricUrl :: "string option \<Rightarrow> string \<Rightarrow> js_error + string"
  got :: "string \<Rightarrow> got_error + lro_body"
  now :: int
  ReplaceMetadata :: "js_error + unit"

text \<open>
  What the functions do to the outside, in order: the node selection, the HTTP requests
  of \<^verbatim>\<open>got\<close>, the calls of the client that change the fabric, the sleeps, and the
  \<^verbatim>\<open>console.error\<close> of a caught exception. Reads through the client and progress
  messages of \<^verbatim>\<open>console.log\<close> are no events.
\<close>

datatype event =
    SetNodes string
  | Got string
  | Sleep nat
  | Call_CallBitcodeMethod "string option" string          \<comment> \<open>write token, method\<close>
  | Call_EditContentObject
  | Call_MergeMetadata string string                        \<comment> \<open>write token, edge token\<close>
  | Call_FinalizeContentObject string                       \<comment> \<open>write token\<close>
  | Call_AuthorizationToken
  | Call_ReplaceMetadata "string option" "insertion list"   \<comment> \<open>write token, new array\<close>
  | ConsoleError js_error

section \<open>Status\<close>

record recording_period =
  activation_time_epoch_sec :: real
  period_start_time_epoch_sec :: real
  period_end_time_epoch_sec :: real
  video_parts :: real
  video_last_part_finalized_epoch_sec :: real
  video_since_last_finalize_sec :: real

text \<open>
  The object that \<^verbatim>\<open>Status\<close>, \<^verbatim>\<open>StreamCreate\<close> and \<^verbatim>\<open>StartOrStopOrReset\<close>
  return; a property not set is \<open>None\<close>. The two date texts of the recording period
  depend on the locale of the process and are left out.
\<close>

record status =
  name :: "string option"
  library_id :: "string option"
  object_id :: "string option"
  fabric_api :: "string option"
  url :: "string option"
  status_edge_write_token :: "string option"
  stream_id :: "string option"
  recording_period_sequence :: "int option"
  tlro :: "string option"
  recording_period :: "recording_period option"
  lro_status_url :: "string option"
  status_insertions :: "(real \<times> string) list option"
  state :: "string option"
  error :: "string option"
  hash :: "string option"

definition empty_status :: status where
  "empty_status =
     \<lparr> name = None, library_id = None, object_id = None, fabric_api = None, url = None,
       status_edge_write_token = None, stream_id = None, recording_period_sequence = None,
       tlro = None, recording_period = None, lro_status_url = None,
       status_insertions = None, state = None, error = None, hash = None \<rparr>"

definition startsWith :: "string \<Rightarrow> string \<Rightarrow> bool" where
  "startsWith s p = (take (length p) s = p)"

text \<open>String concatenation with a value that may be \<^verbatim>\<open>undefined\<close>.\<close>

definition js_string :: "string option \<Rightarrow> string" where
  "js_string v = (case v of None \<Rightarrow> ''undefined'' | Some s \<Rightarrow> s)"

text \<open>Array indexing with a number: outside the array the value is \<^verbatim>\<open>undefined\<close>.\<close>

definition js_index :: "'a list \<Rightarrow> int \<Rightarrow> 'a option" where
  "js_index xs i = (if 0 \<le> i \<and> i < int (length xs) then Some (xs ! nat i) else None)"

definition LoadConf :: "liveconf_file \<Rightarrow> string \<Rightarrow> js_error + conf" where
  "LoadConf file name' =
     (if startsWith name' ''iq__'' then Inr \<lparr> objectId = Some name' \<rparr>
      else case file of
             Unreadable \<Rightarrow> Inr \<lparr> objectId = None \<rparr>
           | Malformed \<Rightarrow> Inl SyntaxError
           | Streams streams \<Rightarrow>
               (case streams name' of
                  None \<Rightarrow> Inr \<lparr> objectId = None \<rparr>
                | Some conf \<Rightarrow> Inr conf))"

text \<open>
  Lines 164 to 177: the poll of the LRO status and the reconciliation with the period.
  The handler of the inner \<^verbatim>\<open>try\<close> reads \<^verbatim>\<open>error.response.statusCode\<close>; an error
  without a response makes the handler itself throw a TypeError, which leaves the block.
\<close>

definition poll_state :: "got_error + lro_body \<Rightarrow> js_error + string option" where
  "poll_state answer =
     (case answer of
        Inr (Parsed st) \<Rightarrow> Inr st
      | Inr Unparsable \<Rightarrow> Inl TypeError
      | Inl (HTTPError code) \<Rightarrow> Inr (Some ''stopped'')
      | Inl RequestError \<Rightarrow> Inl TypeError)"

definition reconcile :: "string option \<Rightarrow> real \<Rightarrow> real \<Rightarrow> string option" where
  "reconcile state' last_finalization sinceLastFinalize =
     (if state' = Some ''running'' \<and> last_finalization = 0 then Some ''starting''
      else if state' = Some ''running'' \<and> sinceLastFinalize > 32.9 then Some ''stalled''
      else state')"

text \<open>
  The \<^verbatim>\<open>try\<close> block of \<^verbatim>\<open>Status\<close> (lines 84 to 193), in three parts. Each part gives
  the events so far, the status object as assigned so far, and how the part ended.
\<close>

datatype 'a step =
    Thrown js_error    \<comment> \<open>an exception leaves the \<^verbatim>\<open>try\<close> block\<close>
  | Returned           \<comment> \<open>the \<^verbatim>\<open>return status\<close> of line 123\<close>
  | Next 'a

text \<open>Lines 84 to 116: the main metadata, the node, the edge metadata.\<close>

definition Status_main ::
  "world \<Rightarrow> conf \<Rightarrow> status \<Rightarrow> event list \<times> status \<times> (string option \<times> meta) step" where
  "Status_main w conf status0 =
    (case ContentObjectLibraryId w (objectId conf) of
       Inl e \<Rightarrow> ([], status0, Thrown e)
     | Inr libraryId \<Rightarrow>
    (let status1 = status0 \<lparr> library_id := Some libraryId, object_id := objectId conf \<rparr> in
    (case ContentObjectMetadata w libraryId (objectId conf) None of
       Inl e \<Rightarrow> ([], status1, Thrown e)
     | Inr mainMeta \<Rightarrow>
    (case live_recording mainMeta of
       None \<Rightarrow> ([], status1, Thrown TypeError)
     | Some lr \<Rightarrow>
    (case fabric_config lr of
       None \<Rightarrow> ([], status1, Thrown TypeError)
     | Some fc \<Rightarrow>
    (case ingress_node_api fc of
       None \<Rightarrow> ([], status1, Thrown TypeError)
     | Some api \<Rightarrow>
    (let fabURI = (if \<not> startsWith api ''http'' then ''https://'' @ api else api);
        status2 = status1 \<lparr> fabric_api := Some fabURI \<rparr> in
    (case recording_config lr of
       None \<Rightarrow> ([SetNodes fabURI], status2, Thrown TypeError)
     | Some rc \<Rightarrow>
    (case recording_params rc of
       None \<Rightarrow> ([SetNodes fabURI], status2, Thrown TypeError)
     | Some rp \<Rightarrow>
    (let edgeWriteToken = edge_write_token fc;
        status3 = status2 \<lparr> url := origin_url rp,
                            status_edge_write_token := edgeWriteToken,
                            stream_id := edgeWriteToken \<rparr> in
    (case ContentObjectMetadata w libraryId (objectId conf) edgeWriteToken of
       Inl e \<Rightarrow> ([SetNodes fabURI], status3, Thrown e)
     | Inr edgeMeta \<Rightarrow> ([SetNodes fabURI], status3, Next (edgeWriteToken, edgeMeta)))))))))))))"

text \<open>
  Lines 118 to 162: the test for a stream never started, the current period, the
  recording period view, the status URL and the insertions.
\<close>

definition Status_edge ::
  "world \<Rightarrow> string option \<Rightarrow> meta \<Rightarrow> status
     \<Rightarrow> status \<times> (string option \<times> real \<times> real \<times> string) step" where
  "Status_edge w edgeWriteToken edgeMeta status0 =
    (case live_recording edgeMeta of
       None \<Rightarrow> (status0 \<lparr> state := Some ''inactive'' \<rparr>, Returned)
     | Some lr \<Rightarrow>
    (case recordings lr of
       None \<Rightarrow> (status0 \<lparr> state := Some ''inactive'' \<rparr>, Returned)
     | Some recs \<Rightarrow>
    (case recording_sequence recs of
       None \<Rightarrow> (status0 \<lparr> state := Some ''inactive'' \<rparr>, Returned)
     | Some seq \<Rightarrow>
    (let status1 = status0 \<lparr> recording_period_sequence := Some seq \<rparr> in
    (case live_offering recs of
       None \<Rightarrow> (status1, Thrown TypeError)
     | Some offering \<Rightarrow>
    (case js_index offering (seq - 1) of
       None \<Rightarrow> (status1, Thrown TypeError)
     | Some period \<Rightarrow>
    (let tlro' = live_recording_handle period;
        status2 = status1 \<lparr> tlro := tlro' \<rparr> in
    (case video_finalized_parts_info period of
       None \<Rightarrow> (status2, Thrown TypeError)
     | Some info \<Rightarrow>
    (let sinceLastFinalize =
          real_of_int (now w div 1000) - last_finalization_time info / 1000000;
        status3 = status2 \<lparr> recording_period := Some
          \<lparr> activation_time_epoch_sec = recording_start_time_epoch_sec period,
            period_start_time_epoch_sec = start_time_epoch_sec period,
            period_end_time_epoch_sec = end_time_epoch_sec period,
            video_parts = n_parts info,
            video_last_part_finalized_epoch_sec = last_finalization_time info / 1000000,
            video_since_last_finalize_sec = sinceLastFinalize \<rparr> \<rparr> in
    (case FabricUrl w edgeWriteToken (''live/status/'' @ js_string tlro') of
       Inl e \<Rightarrow> (status3, Thrown e)
     | Inr lro_url \<Rightarrow>
    (let status4 = status3 \<lparr> lro_status_url := Some lro_url, status_insertions := Some [] \<rparr> in
    (case playout_config lr of
       None \<Rightarrow> (status4, Thrown TypeError)
     | Some pc \<Rightarrow>
    (let status5 =
          (case interleaves pc of
             None \<Rightarrow> status4
           | Some insertions \<Rightarrow>
               status4 \<lparr> status_insertions :=
                 Some (map (\<lambda>x. (insertion_time x, playout x)) insertions) \<rparr>)
    in (status5, Next (tlro', last_finalization_time info, sinceLastFinalize, lro_url)))))))))))))))"

text \<open>
  Lines 164 to 193. \<^verbatim>\<open>Status\<close> is a method of a class, so its body is strict code: the
  assignment to \<^verbatim>\<open>lroStopUrl\<close> of line 180, a name declared nowhere, throws a
  ReferenceError once its right side, the call of \<^verbatim>\<open>FabricUrl\<close>, has returned. The
  stop request of line 188 is never sent.
\<close>

definition Status_lro ::
  "world \<Rightarrow> bool \<Rightarrow> string option \<Rightarrow> string option \<Rightarrow> real \<Rightarrow> real \<Rightarrow> string \<Rightarrow> status
     \<Rightarrow> event list \<times> status \<times> unit step" where
  "Status_lro w stopLro edgeWriteToken tlro' last_finalization sinceLastFinalize lro_url status0 =
    (case poll_state (got w lro_url) of
       Inl e \<Rightarrow> ([Got lro_url], status0, Thrown e)
     | Inr polled \<Rightarrow>
    (let state' = reconcile polled last_finalization sinceLastFinalize;
         status1 = status0 \<lparr> state := state' \<rparr> in
     if (state' = Some ''running'' \<or> state' = Some ''stalled'' \<or> state' = Some ''starting'')
        \<and> stopLro
     then
       (case FabricUrl w edgeWriteToken (''live/stop/'' @ js_string tlro') of
          Inl e \<Rightarrow> ([Got lro_url], status1, Thrown e)
        | Inr lroStopUrl \<Rightarrow> ([Got lro_url], status1, Thrown ReferenceError))
     else ([Got lro_url], status1, Next ())))"

definition Status_try :: "world \<Rightarrow> conf \<Rightarrow> bool \<Rightarrow> status \<Rightarrow> event list \<times> status \<times> unit step" where
  "Status_try w conf stopLro status0 =
    (case Status_main w conf status0 of
       (events, status1, Thrown e) \<Rightarrow> (events, status1, Thrown e)
     | (events, status1, Returned) \<Rightarrow> (events, status1, Returned)
     | (events, status1, Next (edgeWriteToken, edgeMeta)) \<Rightarrow>
    (case Status_edge w edgeWriteToken edgeMeta status1 of
       (status2, Thrown e) \<Rightarrow> (events, status2, Thrown e)
     | (status2, Returned) \<Rightarrow> (events, status2, Returned)
     | (status2, Next (tlro', last_finalization, sinceLastFinalize, lro_url)) \<Rightarrow>
    (case Status_lro w stopLro edgeWriteToken tlro' last_finalization sinceLastFinalize
            lro_url status2 of
       (events', status3, outcome) \<Rightarrow> (events @ events', status3, outcome))))"

text \<open>
  \<^verbatim>\<open>Status\<close>: \<^verbatim>\<open>LoadConf\<close> runs before the \<^verbatim>\<open>try\<close>, so its exception leaves the
  function; an exception of the block is caught, printed, and the status object is
  returned as it is by then.
\<close>

definition Status :: "world \<Rightarrow> string \<Rightarrow> bool \<Rightarrow> event list \<times> (js_error + status)" where
  "Status w name' stopLro =
    (case LoadConf (liveconf w) name' of
       Inl e \<Rightarrow> ([], Inl e)
     | Inr conf \<Rightarrow>
         (case Status_try w conf stopLro (empty_status \<lparr> name := Some name' \<rparr>) of
            (events, status', Thrown e) \<Rightarrow> (events @ [ConsoleError e], Inr status')
          | (events, status', _) \<Rightarrow> (events, Inr status')))"

section \<open>The function Insertion\<close>

text \<open>
  \<^verbatim>\<open>Insertion\<close> as a whole (lines 667 to 765): the reads before the edit, the edit, and
  the store of the new array. Nothing is caught, so every exception leaves the function.
\<close>

definition Insertion ::
  "world \<Rightarrow> string \<Rightarrow> real \<Rightarrow> real \<Rightarrow> string \<Rightarrow> bool
     \<Rightarrow> event list \<times> (js_error + string list \<times> insertion list)" where
  "Insertion w name' insertionTime duration' targetHash remove =
    (case LoadConf (liveconf w) name' of
       Inl e \<Rightarrow> ([], Inl e)
     | Inr conf \<Rightarrow>
    (case ContentObjectLibraryId w (objectId conf) of
       Inl e \<Rightarrow> ([], Inl e)
     | Inr libraryId \<Rightarrow>
    (case ContentObjectMetadata w libraryId (objectId conf) None of
       Inl e \<Rightarrow> ([], Inl e)
     | Inr mainMeta \<Rightarrow>
    (case live_recording mainMeta of
       None \<Rightarrow> ([], Inl TypeError)
     | Some lr \<Rightarrow>
    (case fabric_config lr of
       None \<Rightarrow> ([], Inl TypeError)
     | Some fc \<Rightarrow>
    (case ingress_node_api fc of
       None \<Rightarrow> ([], Inl TypeError)
     | Some api \<Rightarrow>
    (let fabURI = (if \<not> startsWith api ''http'' then ''https://'' @ api else api);
         edgeWriteToken = edge_write_token fc in
     case ContentObjectMetadata w libraryId (objectId conf) edgeWriteToken of
       Inl e \<Rightarrow> ([SetNodes fabURI], Inl e)
     | Inr edgeMeta \<Rightarrow>
    (case live_recording edgeMeta of
       None \<Rightarrow> ([SetNodes fabURI], Inl TypeError)
     | Some edge_lr \<Rightarrow>
    (case playout_config edge_lr of
       None \<Rightarrow> ([SetNodes fabURI], Inl TypeError)
     | Some pc \<Rightarrow>
    (let insertions = (case interleaves pc of None \<Rightarrow> [] | Some xs \<Rightarrow> xs) in
     case Insertion_edit remove insertionTime duration' targetHash insertions of
       Inl e \<Rightarrow> ([SetNodes fabURI], Inl e)
     | Inr (errs, insertions') \<Rightarrow>
    (case ReplaceMetadata w of
       Inl e \<Rightarrow> ([SetNodes fabURI, Call_ReplaceMetadata edgeWriteToken insertions'], Inl e)
     | Inr done \<Rightarrow>
         ([SetNodes fabURI, Call_ReplaceMetadata edgeWriteToken insertions'],
          Inr (errs, insertions')))))))))))))"

section \<open>Start, stop, reset and create\<close>

text \<open>
  What one call of \<^verbatim>\<open>StartOrStopOrReset\<close> or \<^verbatim>\<open>StreamCreate\<close> gets from outside:
  \<open>worlds r k\<close> is the world that the call of \<^verbatim>\<open>Status\<close> number \<open>k\<close> finds (the
  first call has number 0), \<open>create_world\<close> answers the reads of \<^verbatim>\<open>StreamCreate\<close>
  itself, and the other fields are the outcomes of the client calls that change the
  fabric (the edit number \<open>k\<close> gives a write token, the finalize gives a hash, a
  bitcode call is named by its method).
\<close>

record remote =
  worlds :: "nat \<Rightarrow> world"
  create_world :: world
  EditContentObject :: "nat \<Rightarrow> js_error + string"
  MergeMetadata :: "js_error + unit"
  FinalizeContentObject :: "js_error + string"
  AuthorizationToken :: "js_error + string"
  CallBitcodeMethod :: "string \<Rightarrow> js_error + unit"

text \<open>
  The value of the parameter \<^verbatim>\<open>op\<close>: a string, or the boolean \<^verbatim>\<open>true\<close> that
  \<^verbatim>\<open>StreamCreate\<close> passes on from its parameter \<^verbatim>\<open>start\<close>.
\<close>

datatype op = OpString string | OpTrue

text \<open>
  The two waiting loops (lines 368 to 373 and 404 to 409):
  \<^verbatim>\<open>while (status.state != target && tries-- > 0) { await sleep(1000); status = await this.Status({name}); }\<close>
  The result is the status, the counter \<^verbatim>\<open>tries\<close> and the number of the next call of
  \<^verbatim>\<open>Status\<close> after the loop. The decrement happens only when the first test holds.
\<close>

function wait_until ::
  "string \<Rightarrow> remote \<Rightarrow> string \<Rightarrow> nat \<Rightarrow> int \<Rightarrow> status
     \<Rightarrow> event list \<times> (js_error + status \<times> int \<times> nat)" where
  "wait_until target r name' k tries status0 =
     (if state status0 \<noteq> Some target then
        (if tries > 0 then
           (case Status (worlds r k) name' False of
              (events, Inl e) \<Rightarrow> (Sleep 1000 # events, Inl e)
            | (events, Inr status1) \<Rightarrow>
                (case wait_until target r name' (Suc k) (tries - 1) status1 of
                   (events', res) \<Rightarrow> (Sleep 1000 # events @ events', res)))
         else ([], Inr (status0, tries - 1, k)))
      else ([], Inr (status0, tries, k)))"
  by pat_completeness auto
termination
  by (relation "measure (\<lambda>(target, r, n, k, tries, status0). nat tries)") auto

declare wait_until.simps [simp del]

text \<open>Lines 382 to 412: the return of a stop, the start call and the wait for \<open>starting\<close>.\<close>

definition start_and_wait ::
  "remote \<Rightarrow> string \<Rightarrow> op \<Rightarrow> nat \<Rightarrow> status \<Rightarrow> event list \<times> (js_error + status option)" where
  "start_and_wait r name' op' k status0 =
    (if op' = OpString ''stop'' then ([], Inr (Some status0))
     else
    (let call = Call_CallBitcodeMethod (status_edge_write_token status0) ''/live/start'' in
     case CallBitcodeMethod r ''/live/start'' of
       Inl e \<Rightarrow>
         ([call], Inr (Some (empty_status
            \<lparr> state := state status0,
              error := Some ''LRO start failed - must create a stream first'' \<rparr>)))
     | Inr started \<Rightarrow>
    (case wait_until ''starting'' r name' k 10 status0 of
       (events, Inl e) \<Rightarrow> (call # events, Inl e)
     | (events, Inr (status1, tries, k')) \<Rightarrow> (call # events, Inr (Some status1)))))"

text \<open>
  The \<^verbatim>\<open>try\<close> block of \<^verbatim>\<open>StartOrStopOrReset\<close> (lines 347 to 412). The outcome of the
  stop call is ignored by its own handler (lines 362 to 365).
\<close>

definition StartOrStopOrReset_try ::
  "remote \<Rightarrow> string \<Rightarrow> op \<Rightarrow> event list \<times> (js_error + status option)" where
  "StartOrStopOrReset_try r name' op' =
    (case Status (worlds r 0) name' False of
       (events0, Inl e) \<Rightarrow> (events0, Inl e)
     | (events0, Inr status0) \<Rightarrow>
    (if state status0 \<noteq> Some ''terminated'' \<and> state status0 \<noteq> Some ''inactive'' then
       (if op' = OpString ''start'' then (events0, Inr (Some status0))
        else
       (let stop = Call_CallBitcodeMethod (status_edge_write_token status0)
                     (''/live/stop/'' @ js_string (tlro status0)) in
        case wait_until ''terminated'' r name' 1 10 status0 of
          (events1, Inl e) \<Rightarrow> (events0 @ stop # events1, Inl e)
        | (events1, Inr (status1, tries, k)) \<Rightarrow>
       (if tries \<le> 0 then (events0 @ stop # events1, Inr (Some status1))
        else
       (case start_and_wait r name' op' k status1 of
          (events2, res) \<Rightarrow> (events0 @ stop # events1 @ events2, res)))))
     else
    (case start_and_wait r name' op' 1 status0 of
       (events2, res) \<Rightarrow> (events0 @ events2, res))))"

text \<open>
  \<^verbatim>\<open>StartOrStopOrReset\<close>: the handler of the \<^verbatim>\<open>try\<close> prints the exception, and the
  function then returns \<^verbatim>\<open>undefined\<close>, here \<open>None\<close>.
\<close>

definition StartOrStopOrReset ::
  "remote \<Rightarrow> string \<Rightarrow> op \<Rightarrow> event list \<times> (js_error + status option)" where
  "StartOrStopOrReset r name' op' =
    (case StartOrStopOrReset_try r name' op' of
       (events, Inl e) \<Rightarrow> (events @ [ConsoleError e], Inr None)
     | (events, Inr res) \<Rightarrow> (events, Inr res))"

text \<open>
  Lines 215 to 330 of \<^verbatim>\<open>StreamCreate\<close>, behind the test of the state. The read of the
  subtree \<^verbatim>\<open>/live_recording\<close> is the read of the document followed by the selection
  of that property. With \<^verbatim>\<open>start\<close> set the function hands over to
  \<^verbatim>\<open>StartOrStopOrReset\<close> with \<^verbatim>\<open>op\<close> bound to the value of \<^verbatim>\<open>start\<close>; the calls of
  \<^verbatim>\<open>Status\<close> made there are numbered on from 1.
\<close>

definition StreamCreate_write ::
  "remote \<Rightarrow> string \<Rightarrow> bool \<Rightarrow> string option \<Rightarrow> event list \<times> (js_error + status option)" where
  "StreamCreate_write r name' start objectId' =
    (case ContentObjectLibraryId (create_world r) objectId' of
       Inl e \<Rightarrow> ([], Inl e)
     | Inr libraryId \<Rightarrow>
    (case ContentObjectMetadata (create_world r) libraryId objectId' None of
       Inl e \<Rightarrow> ([], Inl e)
     | Inr m \<Rightarrow>
    (case live_recording m of
       None \<Rightarrow> ([], Inl TypeError)
     | Some liveRecording \<Rightarrow>
    (case fabric_config liveRecording of
       None \<Rightarrow> ([], Inl TypeError)
     | Some fc \<Rightarrow>
    (case ingress_node_api fc of
       None \<Rightarrow> ([], Inl TypeError)
     | Some api \<Rightarrow>
    (let fabURI = (if \<not> startsWith api ''http'' then ''https://'' @ api else api) in
     case EditContentObject r 0 of
       Inl e \<Rightarrow> ([SetNodes fabURI, Call_EditContentObject], Inl e)
     | Inr edgeToken \<Rightarrow>
    (case EditContentObject r 1 of
       Inl e \<Rightarrow> ([SetNodes fabURI, Call_EditContentObject, Call_EditContentObject], Inl e)
     | Inr writeToken \<Rightarrow>
    (let events1 = [SetNodes fabURI, Call_EditContentObject, Call_EditContentObject,
                    Call_MergeMetadata writeToken edgeToken] in
     case MergeMetadata r of
       Inl e \<Rightarrow> (events1, Inl e)
     | Inr merged \<Rightarrow>
    (case FinalizeContentObject r of
       Inl e \<Rightarrow> (events1 @ [Call_FinalizeContentObject writeToken], Inl e)
     | Inr objectHash \<Rightarrow>
    (let events2 = events1 @ [Call_FinalizeContentObject writeToken, Call_AuthorizationToken] in
     case AuthorizationToken r of
       Inl e \<Rightarrow> (events2, Inl e)
     | Inr token \<Rightarrow>
    (if start then
       (case StartOrStopOrReset (r \<lparr> worlds := \<lambda>k. worlds r (Suc k) \<rparr>) name' OpTrue of
          (events3, res) \<Rightarrow> (events2 @ events3, res))
     else
       (events2,
        Inr (Some (empty_status
          \<lparr> object_id := objectId', hash := Some objectHash, library_id := Some libraryId,
            stream_id := Some edgeToken, status_edge_write_token := Some edgeToken,
            fabric_api := Some fabURI, state := Some ''stopped'' \<rparr>))))))))))))))"

text \<open>
  \<^verbatim>\<open>StreamCreate\<close> (lines 205 to 331). The function has no \<^verbatim>\<open>try\<close>: an exception
  of \<^verbatim>\<open>Status\<close> or of a later call leaves it. \<^verbatim>\<open>show_curl\<close> only prints.
\<close>

definition StreamCreate ::
  "remote \<Rightarrow> string \<Rightarrow> bool \<Rightarrow> bool \<Rightarrow> event list \<times> (js_error + status option)" where
  "StreamCreate r name' start show_curl =
    (case Status (worlds r 0) name' False of
       (events0, Inl e) \<Rightarrow> (events0, Inl e)
     | (events0, Inr status0) \<Rightarrow>
    (if state status0 \<noteq> Some ''inactive'' \<and> state status0 \<noteq> Some ''terminated'' then
       (events0,
        Inr (Some (empty_status
          \<lparr> state := state status0,
            error := Some ''stream still active - must terminate first'' \<rparr>)))
     else
    (case StreamCreate_write r name' start (object_id status0) of
       (events1, res) \<Rightarrow> (events0 @ events1, res))))"

text \<open>The events that write metadata of the content object.\<close>

fun metadata_write :: "event \<Rightarrow> bool" where
  "metadata_write Call_EditContentObject = True"
| "metadata_write (Call_MergeMetadata writeToken edgeToken) = True"
| "metadata_write (Call_FinalizeContentObject writeToken) = True"
| "metadata_write (Call_ReplaceMetadata writeToken insertions) = True"
| "metadata_write e = False"

section \<open>Example inputs\<close>

definition example_period :: "real \<Rightarrow> period" where
  "example_period finalized =
     \<lparr> live_recording_handle = Some ''tlro1'',
       recording_start_time_epoch_sec = 1700000000,
       start_time_epoch_sec = 1700000010,
       end_time_epoch_sec = 0,
       video_finalized_parts_info =
         Some \<lparr> n_parts = 3, last_finalization_time = finalized \<rparr> \<rparr>"

definition one_period :: "real \<Rightarrow> recordings option" where
  "one_period finalized =
     Some \<lparr> recording_sequence = Some 1, live_offering = Some [example_period finalized] \<rparr>"

definition example_meta :: "string option \<Rightarrow> string option \<Rightarrow> recordings option \<Rightarrow> meta" where
  "example_meta api token recs =
     \<lparr> live_recording = Some
         \<lparr> fabric_config = Some \<lparr> ingress_node_api = api, edge_write_token = token \<rparr>,
           recording_config =
             Some \<lparr> recording_params = Some \<lparr> origin_url = Some ''udp://feed'' \<rparr> \<rparr>,
           recordings = recs,
           playout_config = Some \<lparr> interleaves = None \<rparr> \<rparr> \<rparr>"

text \<open>
  A world whose object has the main metadata \<open>mainMeta\<close>, whose every write token gives
  \<open>edgeMeta\<close>, whose LRO answers every request with \<open>answer\<close>, at the time \<open>clock\<close>.
\<close>

definition example_world :: "meta \<Rightarrow> meta \<Rightarrow> got_error + lro_body \<Rightarrow> int \<Rightarrow> world" where
  "example_world mainMeta edgeMeta answer clock =
     \<lparr> liveconf = Unreadable,
       ContentObjectLibraryId = (\<lambda>objectId. Inr ''ilib1''),
       ContentObjectMetadata =
         (\<lambda>libraryId objectId writeToken.
            if writeToken = None then Inr mainMeta else Inr edgeMeta),
       FabricUrl =
         (\<lambda>writeToken call.
            Inr (''https://node1/q/'' @ js_string writeToken @ ''/call/'' @ call)),
       got = (\<lambda>u. answer),
       now = clock,
       ReplaceMetadata = Inr () \<rparr>"

text \<open>
  A stream with the edge write token \<open>tqw1\<close> and one recording period, last finalized
  at \<open>finalized\<close> microseconds, seen at second 1700000100.
\<close>

definition recording_world :: "real \<Rightarrow> got_error + lro_body \<Rightarrow> world" where
  "recording_world finalized answer =
     example_world (example_meta (Some ''node1'') (Some ''tqw1'') None)
                   (example_meta (Some ''node1'') (Some ''tqw1'') (one_period finalized))
                   answer 1700000100999"

text \<open>The same stream when the LRO reports the state \<open>st\<close>, last finalized 10 seconds ago.\<close>

definition lro_reports :: "string \<Rightarrow> world" where
  "lro_reports st = recording_world 1700000090000000 (Inr (Parsed (Some st)))"

text \<open>
  A session after its end: the edge write token is the empty string, the metadata of
  the object, read under that token too, still holds the recording period, and the LRO
  reports \<open>terminated\<close>.
\<close>

definition empty_token_world :: world where
  "empty_token_world =
     example_world (example_meta (Some ''node1'') (Some []) (one_period 0))
                   (example_meta (Some ''node1'') (Some []) (one_period 0))
                   (Inr (Parsed (Some ''terminated''))) 1700000100999"

text \<open>An object whose fabric configuration has no \<open>ingress_node_api\<close>.\<close>

definition no_api_world :: world where
  "no_api_world =
     example_world (example_meta None (Some ''tqw1'') None)
                   (example_meta None (Some ''tqw1'') (one_period 0))
                   (Inr (Parsed (Some ''running''))) 1700000100999"

text \<open>A fabric that accepts every call, with the worlds \<open>ws\<close> for the calls of \<^verbatim>\<open>Status\<close>.\<close>

definition example_remote :: "(nat \<Rightarrow> world) \<Rightarrow> remote" where
  "example_remote ws =
     \<lparr> worlds = ws,
       create_world = ws 0,
       EditContentObject = (\<lambda>k. Inr (if k = 0 then ''tqw2'' else ''tqw3'')),
       MergeMetadata = Inr (),
       FinalizeContentObject = Inr ''hq__2'',
       AuthorizationToken = Inr ''token'',
       CallBitcodeMethod = (\<lambda>method. Inr ()) \<rparr>"

text \<open>
  Successive calls of \<^verbatim>\<open>Insertion\<close> on one stream: each call reads the array that
  the call before it stored with \<^verbatim>\<open>ReplaceMetadata\<close>. A call is the tuple of
  \<^verbatim>\<open>remove\<close>, \<^verbatim>\<open>insertionTime\<close>, \<^verbatim>\<open>duration\<close> and \<^verbatim>\<open>targetHash\<close>.
\<close>

fun Insertion_calls ::
  "(bool \<times> real \<times> real \<times> string) list \<Rightarrow> insertion list \<Rightarrow> js_error + insertion list" where
  "Insertion_calls [] insertions = Inr insertions"
| "Insertion_calls ((remove, insertionTime, duration', targetHash) # calls) insertions =
     (case Insertion_edit remove insertionTime duration' targetHash insertions of
        Inl e \<Rightarrow> Inl e
      | Inr (errs, insertions') \<Rightarrow> Insertion_calls calls insertions')"

text \<open>An entry as a call with duration 5 and target \<open>h\<close> creates it, for the examples.\<close>

definition entry_at :: "real \<Rightarrow> insertion" where
  "entry_at t = newInsertion_of t 5 ''h''"

text \<open>Reference function: the list without its first entry at time \<open>t\<close>.\<close>

fun remove_first :: "real \<Rightarrow> insertion list \<Rightarrow> insertion list" where
  "remove_first t [] = []"
| "remove_first t (x # xs) = (if insertion_time x = t then xs else x # remove_first t xs)"

text \<open>Reference function: the index of the first entry later than \<open>t\<close>, or the length.\<close>

definition later_index :: "real \<Rightarrow> insertion list \<Rightarrow> nat" where
  "later_index t xs = length (takeWhile (\<lambda>x. \<not> t < insertion_time x) xs)"

section \<open>The insertion loop\<close>

lemma Insertion_loop_remove:
  assumes "r" and "\<forall>x\<in>set xs. c < insertion_time x" and "i \<le> length xs"
  shows "Insertion_loop r t n c xs i = Inr (take i xs @ remove_first t (drop i xs), False)"
  using assms
proof (induction r t n c xs i rule: Insertion_loop.induct)
  case (1 r t n c xs i)
  note r = \<open>r\<close>
  show ?case
  proof (cases "i < length xs")
    case False
    with "1.prems" show ?thesis by (simp add: Insertion_loop.simps)
  next
    case True
    then have d: "drop i xs = xs ! i # drop (Suc i) xs"
      by (simp add: Cons_nth_drop_Suc)
    from True "1.prems" have gt: "\<not> insertion_time (xs ! i) \<le> c"
      by (simp add: not_le)
    show ?thesis
    proof (cases "insertion_time (xs ! i) = t")
      case True
      with \<open>i < length xs\<close> gt d r show ?thesis
        by (subst Insertion_loop.simps) (simp add: splice_def)
    next
      case False
      from True have "Suc i \<le> length xs" by simp
      with "1.IH"(1) [OF \<open>i < length xs\<close> gt r False] "1.prems"
      have "Insertion_loop r t n c xs (Suc i)
              = Inr (take (Suc i) xs @ remove_first t (drop (Suc i) xs), False)"
        by simp
      with True gt d False r show ?thesis
        by (subst Insertion_loop.simps) (simp add: take_Suc_conv_app_nth)
    qed
  qed
qed

lemma Insertion_loop_insert:
  "\<not> r \<Longrightarrow> Insertion_loop r t n c xs i = Inr (ys, dn) \<Longrightarrow>
     (if dn then n \<in> set ys \<and> set ys \<subseteq> insert n (set xs) else ys = xs)"
proof (induction r t n c xs i rule: Insertion_loop.induct)
  case (1 r t n c xs i)
  note r = \<open>\<not> r\<close>
  show ?case
  proof (cases "i < length xs")
    case False
    with "1.prems" show ?thesis by (simp add: Insertion_loop.simps)
  next
    case True
    note lt = this
    show ?thesis
    proof (cases "insertion_time (xs ! i) \<le> c")
      case True
      with lt "1.prems" show ?thesis by (simp add: Insertion_loop.simps)
    next
      case False
      note gt = this
      show ?thesis
      proof (cases "t < insertion_time (xs ! i)")
        case True
        with lt gt r "1.prems" have "dn"
          and ys: "ys = (if 0 < i then take i xs @ [n] @ drop i (drop i xs) else n # xs)"
          by (simp_all add: Insertion_loop.simps splice_def splice_rest_def split: if_splits)
        have "set (take i xs) \<subseteq> set xs" "set (drop i (drop i xs)) \<subseteq> set xs"
          by (auto dest: in_set_takeD in_set_dropD)
        with \<open>dn\<close> ys show ?thesis by auto
      next
        case False
        with lt gt "1.prems" have "Insertion_loop r t n c xs (Suc i) = Inr (ys, dn)"
          by (simp add: Insertion_loop.simps)
        from "1.IH"(2) [OF lt gt r False r this] show ?thesis by simp
      qed
    qed
  qed
qed

lemma Insertion_edit_errors_empty:
  "Insertion_edit r t d h xs = Inr (errs, ys) \<Longrightarrow> errs = []"
  by (auto simp: Insertion_edit_def Let_def split: sum.splits)

lemma Insertion_edit_remove:
  assumes "\<forall>x\<in>set xs. - 1 < insertion_time x"
  shows "Insertion_edit True t d h xs = Inr ([], remove_first t xs)"
  using Insertion_loop_remove [of True xs "- 1" 0 t "newInsertion_of t d h"] assms
  by (simp add: Insertion_edit_def)

lemma remove_first_no_match:
  "\<forall>x\<in>set xs. insertion_time x \<noteq> t \<Longrightarrow> remove_first t xs = xs"
  by (induction xs) auto

lemma remove_first_at:
  "i < length xs \<Longrightarrow> insertion_time (xs ! i) = t \<Longrightarrow> \<forall>j<i. insertion_time (xs ! j) \<noteq> t
     \<Longrightarrow> remove_first t xs = take i xs @ drop (Suc i) xs"
proof (induction xs arbitrary: i)
  case Nil
  then show ?case by simp
next
  case (Cons x xs)
  show ?case
  proof (cases i)
    case 0
    with Cons.prems show ?thesis by simp
  next
    case (Suc k)
    with Cons.prems have "insertion_time x \<noteq> t" by auto
    moreover from Suc Cons.prems have "remove_first t xs = take k xs @ drop (Suc k) xs"
      by (intro Cons.IH) auto
    ultimately show ?thesis using Suc by simp
  qed
qed

lemma remove_first_subset: "set (remove_first t xs) \<subseteq> set xs"
  by (induction xs) auto

lemma remove_first_twice:
  "length (filter (\<lambda>x. insertion_time x = t) xs) \<le> 1
     \<Longrightarrow> remove_first t (remove_first t xs) = remove_first t xs"
proof (induction xs)
  case Nil
  then show ?case by simp
next
  case (Cons x xs)
  show ?case
  proof (cases "insertion_time x = t")
    case True
    with Cons.prems have "filter (\<lambda>x. insertion_time x = t) xs = []" by simp
    then have "\<forall>y\<in>set xs. insertion_time y \<noteq> t" by (simp add: filter_empty_conv)
    with True show ?thesis by (simp add: remove_first_no_match)
  next
    case False
    with Cons show ?thesis by simp
  qed
qed

lemma Insertion_loop_returns:
  "\<forall>x\<in>set xs. c < insertion_time x \<Longrightarrow> \<exists>ys dn. Insertion_loop r t n c xs i = Inr (ys, dn)"
proof (induction r t n c xs i rule: Insertion_loop.induct)
  case (1 r t n c xs i)
  show ?case
  proof (cases "i < length xs")
    case False
    then show ?thesis by (auto simp: Insertion_loop.simps)
  next
    case True
    with "1.prems" have gt: "\<not> insertion_time (xs ! i) \<le> c" by (simp add: not_le)
    show ?thesis
    proof (cases r)
      case r: True
      show ?thesis
      proof (cases "insertion_time (xs ! i) = t")
        case True
        with \<open>i < length xs\<close> gt r show ?thesis by (auto simp: Insertion_loop.simps)
      next
        case False
        from "1.IH"(1) [OF \<open>i < length xs\<close> gt r False "1.prems"] \<open>i < length xs\<close> gt r False
        show ?thesis by (subst Insertion_loop.simps) simp
      qed
    next
      case r: False
      show ?thesis
      proof (cases "t < insertion_time (xs ! i)")
        case True
        with \<open>i < length xs\<close> gt r show ?thesis
          by (auto simp: Insertion_loop.simps splice_def splice_rest_def)
      next
        case False
        from "1.IH"(2) [OF \<open>i < length xs\<close> gt r False "1.prems"] \<open>i < length xs\<close> gt r False
        show ?thesis by (subst Insertion_loop.simps) simp
      qed
    qed
  qed
qed

lemma later_index_eq:
  "k \<le> length xs \<Longrightarrow> \<forall>j<k. \<not> t < insertion_time (xs ! j)
     \<Longrightarrow> (k < length xs \<longrightarrow> t < insertion_time (xs ! k)) \<Longrightarrow> later_index t xs = k"
  unfolding later_index_def
  by (subst takeWhile_eq_take_P_nth [where n = k]) auto

lemma Insertion_loop_upsert:
  assumes "\<not> r" and "\<forall>x\<in>set xs. c < insertion_time x" and "i \<le> length xs"
    and "\<forall>j<i. \<not> t < insertion_time (xs ! j)"
  shows "Insertion_loop r t n c xs i
           = (if later_index t xs < length xs
              then Inr (take (later_index t xs) xs @ [n] @ drop (2 * later_index t xs) xs, True)
              else Inr (xs, False))"
  using assms
proof (induction r t n c xs i rule: Insertion_loop.induct)
  case (1 r t n c xs i)
  note r = \<open>\<not> r\<close>
  show ?case
  proof (cases "i < length xs")
    case False
    with "1.prems" have "i = length xs" by simp
    with "1.prems" have "later_index t xs = length xs"
      by (intro later_index_eq) auto
    with False show ?thesis by (simp add: Insertion_loop.simps)
  next
    case True
    with "1.prems" have gt: "\<not> insertion_time (xs ! i) \<le> c" by (simp add: not_le)
    show ?thesis
    proof (cases "t < insertion_time (xs ! i)")
      case later: True
      with True "1.prems" have k: "later_index t xs = i"
        by (intro later_index_eq) auto
      from True gt r later show ?thesis
        unfolding k
        by (subst Insertion_loop.simps) (simp add: splice_def splice_rest_def mult_2)
    next
      case False
      from "1.prems"(4) False have "\<forall>j<Suc i. \<not> t < insertion_time (xs ! j)"
        by (simp add: less_Suc_eq)
      with "1.IH"(2) [OF True gt r False r "1.prems"(2)] True
      have "Insertion_loop r t n c xs (Suc i)
              = (if later_index t xs < length xs
                 then Inr (take (later_index t xs) xs @ [n] @ drop (2 * later_index t xs) xs, True)
                 else Inr (xs, False))"
        by simp
      with True gt r False show ?thesis
        by (subst Insertion_loop.simps) simp
    qed
  qed
qed

lemma Insertion_edit_upsert:
  assumes "\<forall>x\<in>set xs. - 1 < insertion_time x"
  shows "Insertion_edit False t d h xs
           = Inr ([], if later_index t xs < length xs
                      then take (later_index t xs) xs @ [newInsertion_of t d h]
                             @ drop (2 * later_index t xs) xs
                      else xs @ [newInsertion_of t d h])"
  using Insertion_loop_upsert [of False xs "- 1" 0 t "newInsertion_of t d h"] assms
  by (simp add: Insertion_edit_def)

lemma later_index_le: "later_index t xs \<le> length xs"
  by (simp add: later_index_def length_takeWhile_le)

lemma before_later_index:
  assumes "j < later_index t xs"
  shows "\<not> t < insertion_time (xs ! j)"
proof -
  let ?P = "\<lambda>x. \<not> t < insertion_time x"
  from assms have j: "j < length (takeWhile ?P xs)" by (simp add: later_index_def)
  then have "takeWhile ?P xs ! j \<in> set (takeWhile ?P xs)" by (rule nth_mem)
  then have "?P (takeWhile ?P xs ! j)" by (rule set_takeWhileD [THEN conjunct2])
  with takeWhile_nth [OF j] show ?thesis by simp
qed

lemma at_later_index:
  "later_index t xs < length xs \<Longrightarrow> t < insertion_time (xs ! later_index t xs)"
  unfolding later_index_def using nth_length_takeWhile [of "\<lambda>x. \<not> t < insertion_time x" xs]
  by simp

lemma Upsert_keeps_order:
  assumes gt: "\<forall>x\<in>set xs. - 1 < insertion_time x"
    and sorted: "sorted_wrt (<) (map insertion_time xs)"
    and fresh: "t \<notin> insertion_time ` set xs"
    and run: "Insertion_edit False t d h xs = Inr (errs, ys)"
  shows "sorted_wrt (<) (map insertion_time ys)"
proof -
  let ?k = "later_index t xs"
  let ?n = "newInsertion_of t d h"
  have tn: "insertion_time ?n = t" by (simp add: newInsertion_of_def)
  have before: "insertion_time x < t" if "x \<in> set (take ?k xs)" for x
  proof -
    from that obtain j where j: "j < ?k" "j < length xs" "x = xs ! j"
      by (auto simp: in_set_conv_nth)
    with before_later_index [of j t xs] have "insertion_time x \<le> t" by simp
    moreover from j fresh have "insertion_time x \<noteq> t" by (metis image_eqI nth_mem)
    ultimately show ?thesis by simp
  qed
  show ?thesis
  proof (cases "?k < length xs")
    case False
    with later_index_le [of t xs] have "take ?k xs = xs" by simp
    with before have "\<forall>x\<in>set xs. insertion_time x < t" by simp
    moreover from run gt False have "ys = xs @ [?n]" by (simp add: Insertion_edit_upsert)
    ultimately show ?thesis using sorted tn by (auto simp: sorted_wrt_append)
  next
    case True
    from run gt True have ys: "ys = take ?k xs @ [?n] @ drop (2 * ?k) xs"
      by (simp add: Insertion_edit_upsert)
    have after: "t < insertion_time y" if "y \<in> set (drop (2 * ?k) xs)" for y
    proof -
      from that obtain j where "j < length xs - 2 * ?k" "y = xs ! (2 * ?k + j)"
        by (auto simp: in_set_conv_nth)
      then have j: "2 * ?k + j < length xs" "y = xs ! (2 * ?k + j)" by auto
      show ?thesis
      proof (cases "2 * ?k + j = ?k")
        case True
        with j at_later_index [OF \<open>?k < length xs\<close>] show ?thesis by simp
      next
        case False
        then have "?k < 2 * ?k + j" by simp
        with sorted j have "insertion_time (xs ! ?k) < insertion_time (xs ! (2 * ?k + j))"
          by (simp add: sorted_wrt_iff_nth_less)
        with j at_later_index [OF \<open>?k < length xs\<close>] show ?thesis by simp
      qed
    qed
    have s1: "sorted_wrt (<) (map insertion_time (take ?k xs))"
      using sorted by (simp add: take_map [symmetric])
    have s2: "sorted_wrt (<) (map insertion_time (drop (2 * ?k) xs))"
      using sorted by (simp add: drop_map [symmetric])
    from before after have "\<forall>x\<in>set (take ?k xs). \<forall>y\<in>set (drop (2 * ?k) xs).
        insertion_time x < insertion_time y"
      by (meson less_trans)
    with s1 s2 before after tn show ?thesis
      unfolding ys by (auto simp: sorted_wrt_append)
  qed
qed

lemma Remove_keeps_order:
  "sorted_wrt (<) (map insertion_time xs) \<Longrightarrow> sorted_wrt (<) (map insertion_time (remove_first t xs))"
proof (induction xs)
  case Nil
  then show ?case by simp
next
  case (Cons x xs)
  with remove_first_subset [of t xs] show ?case by auto
qed

text \<open>What \<^verbatim>\<open>Insertion\<close> returns is the result of the edit, stored under the edge token.\<close>

lemma Insertion_returns_edit:
  "Insertion w n t d h rm = (ev, Inr res) \<Longrightarrow>
     \<exists>xs u tok. Insertion_edit rm t d h xs = Inr res
        \<and> ev = [SetNodes u, Call_ReplaceMetadata tok (snd res)]"
  by (auto simp: Insertion_def Let_def split: sum.splits option.splits prod.splits)

section \<open>Claims about the insertion list\<close>

text \<open>
  C10. Every record that an Upsert call creates carries \<open>audio_abr_duration = 2.005333\<close>
  and \<open>video_abr_duration = 2.002002\<close>, its \<open>playout\<close> is the text \<open>/qfab/\<close>, then
  the target hash, then \<open>/rep/playout\<close>, and it stores the caller's insertion time and
  duration as they are: whenever the call returns, that record is in the new list, and
  every other entry of the new list is an entry of the old one. The call does return
  when every entry of the old list has an insertion time above \<open>-1\<close>.
\<close>

theorem Upsert_record_fields:
  "(\<forall>errs ys. Insertion_edit False t d h xs = Inr (errs, ys) \<longrightarrow>
      \<lparr> insertion_time = t, duration = d, audio_abr_duration = 2.005333,
        video_abr_duration = 2.002002, playout = ''/qfab/'' @ h @ ''/rep/playout'' \<rparr> \<in> set ys
      \<and> (\<forall>y\<in>set ys. y \<in> set xs \<or>
            y = \<lparr> insertion_time = t, duration = d, audio_abr_duration = 2.005333,
                  video_abr_duration = 2.002002,
                  playout = ''/qfab/'' @ h @ ''/rep/playout'' \<rparr>))
   \<and> ((\<forall>x\<in>set xs. - 1 < insertion_time x) \<longrightarrow>
        (\<exists>ys. Insertion_edit False t d h xs = Inr ([], ys)))"
proof (rule conjI)
  show "\<forall>errs ys. Insertion_edit False t d h xs = Inr (errs, ys) \<longrightarrow>
      \<lparr> insertion_time = t, duration = d, audio_abr_duration = 2.005333,
        video_abr_duration = 2.002002, playout = ''/qfab/'' @ h @ ''/rep/playout'' \<rparr> \<in> set ys
      \<and> (\<forall>y\<in>set ys. y \<in> set xs \<or>
            y = \<lparr> insertion_time = t, duration = d, audio_abr_duration = 2.005333,
                  video_abr_duration = 2.002002,
                  playout = ''/qfab/'' @ h @ ''/rep/playout'' \<rparr>)"
    unfolding Insertion_edit_def Let_def
    by (auto split: sum.splits if_splits dest!: Insertion_loop_insert [rotated]
          simp: newInsertion_of_def)
next
  show "(\<forall>x\<in>set xs. - 1 < insertion_time x) \<longrightarrow>
          (\<exists>ys. Insertion_edit False t d h xs = Inr ([], ys))"
    by (simp add: Insertion_edit_upsert)
qed

theorem Upsert_record_fields_witness:
  "Insertion_edit False 100 5 ''h1'' []
     = Inr ([], [\<lparr> insertion_time = 100, duration = 5, audio_abr_duration = 2.005333,
                   video_abr_duration = 2.002002, playout = ''/qfab/h1/rep/playout'' \<rparr>])
   \<and> \<lparr> insertion_time = 100, duration = 5, audio_abr_duration = 2.005333,
       video_abr_duration = 2.002002, playout = ''/qfab/'' @ ''h1'' @ ''/rep/playout'' \<rparr>
      \<in> set [\<lparr> insertion_time = 100, duration = 5, audio_abr_duration = 2.005333,
                video_abr_duration = 2.002002, playout = ''/qfab/h1/rep/playout'' \<rparr>]"
proof -
  have run: "Insertion_edit False 100 5 ''h1'' []
     = Inr ([], [\<lparr> insertion_time = 100, duration = 5, audio_abr_duration = 2.005333,
                   video_abr_duration = 2.002002, playout = ''/qfab/h1/rep/playout'' \<rparr>])"
    by (simp add: Insertion_edit_def Insertion_loop.simps newInsertion_of_def)
  from Upsert_record_fields [of 100 5 "''h1''" "[]"] run show ?thesis by blast
qed

text \<open>
  C6, as amended. On a list whose entries all have an insertion time above \<open>-1\<close>,
  Remove deletes exactly the first entry whose insertion time equals the target; when
  no entry matches, the list comes back unchanged and no error is raised; and a second
  Remove at the same time changes nothing, provided at most one entry of the list
  carries the target time.
\<close>

theorem Remove_first_match:
  assumes "\<forall>x\<in>set xs. - 1 < insertion_time x"
  shows "((\<forall>x\<in>set xs. insertion_time x \<noteq> t) \<longrightarrow> Insertion_edit True t d h xs = Inr ([], xs))
       \<and> (\<forall>i<length xs. insertion_time (xs ! i) = t \<and> (\<forall>j<i. insertion_time (xs ! j) \<noteq> t) \<longrightarrow>
              Insertion_edit True t d h xs = Inr ([], take i xs @ drop (Suc i) xs))
       \<and> (length (filter (\<lambda>x. insertion_time x = t) xs) \<le> 1 \<longrightarrow>
              (\<exists>ys. Insertion_edit True t d h xs = Inr ([], ys)
                  \<and> Insertion_edit True t d h ys = Inr ([], ys)))"
proof (intro conjI impI allI)
  assume "\<forall>x\<in>set xs. insertion_time x \<noteq> t"
  then show "Insertion_edit True t d h xs = Inr ([], xs)"
    using assms by (simp add: Insertion_edit_remove remove_first_no_match)
next
  fix i
  assume "i < length xs"
    and "insertion_time (xs ! i) = t \<and> (\<forall>j<i. insertion_time (xs ! j) \<noteq> t)"
  then show "Insertion_edit True t d h xs = Inr ([], take i xs @ drop (Suc i) xs)"
    using assms by (simp add: Insertion_edit_remove remove_first_at)
next
  assume one: "length (filter (\<lambda>x. insertion_time x = t) xs) \<le> 1"
  from assms remove_first_subset [of t xs]
  have "\<forall>x\<in>set (remove_first t xs). - 1 < insertion_time x" by blast
  then have "Insertion_edit True t d h (remove_first t xs)
               = Inr ([], remove_first t (remove_first t xs))"
    by (rule Insertion_edit_remove)
  with one have "Insertion_edit True t d h (remove_first t xs) = Inr ([], remove_first t xs)"
    by (simp add: remove_first_twice)
  with assms show "\<exists>ys. Insertion_edit True t d h xs = Inr ([], ys)
                     \<and> Insertion_edit True t d h ys = Inr ([], ys)"
    by (simp add: Insertion_edit_remove)
qed

theorem Remove_first_match_witness:
  "Insertion_edit True 20 5 ''h'' [entry_at 10, entry_at 20, entry_at 30]
     = Inr ([], [entry_at 10, entry_at 30])
   \<and> Insertion_edit True 20 5 ''h'' [entry_at 10, entry_at 30]
     = Inr ([], [entry_at 10, entry_at 30])"
proof -
  have a: "\<forall>x\<in>set [entry_at 10, entry_at 20, entry_at 30]. - 1 < insertion_time x"
    by (simp add: entry_at_def newInsertion_of_def)
  have b: "\<forall>x\<in>set [entry_at 10, entry_at 30]. - 1 < insertion_time x"
    by (simp add: entry_at_def newInsertion_of_def)
  have c: "\<forall>x\<in>set [entry_at 10, entry_at 30]. insertion_time x \<noteq> 20"
    by (simp add: entry_at_def newInsertion_of_def)
  have d: "(1::nat) < length [entry_at 10, entry_at 20, entry_at 30]
        \<and> insertion_time ([entry_at 10, entry_at 20, entry_at 30] ! 1) = 20
        \<and> (\<forall>j<1::nat. insertion_time ([entry_at 10, entry_at 20, entry_at 30] ! j) \<noteq> 20)"
    by (simp add: entry_at_def newInsertion_of_def)
  from Remove_first_match [OF a, of 20 5 "''h''"] d
  have "Insertion_edit True 20 5 ''h'' [entry_at 10, entry_at 20, entry_at 30]
          = Inr ([], take 1 [entry_at 10, entry_at 20, entry_at 30]
                     @ drop (Suc 1) [entry_at 10, entry_at 20, entry_at 30])"
    by blast
  moreover from Remove_first_match [OF b, of 20 5 "''h''"] c
  have "Insertion_edit True 20 5 ''h'' [entry_at 10, entry_at 30]
          = Inr ([], [entry_at 10, entry_at 30])"
    by blast
  ultimately show ?thesis by simp
qed

text \<open>
  C6 as stated fails on a list that holds the target time twice. Two Upserts at time 20
  on the empty list give such a list; the first Remove at 20 then leaves one entry at
  time 20, and the second Remove deletes it.
\<close>

theorem Remove_twice_counterexample:
  "Insertion_calls [(False, 20, 5, ''h''), (False, 20, 5, ''h'')] []
     = Inr [entry_at 20, entry_at 20]
   \<and> Insertion_edit True 20 5 ''h'' [entry_at 20, entry_at 20] = Inr ([], [entry_at 20])
   \<and> Insertion_edit True 20 5 ''h'' [entry_at 20] = Inr ([], [])
   \<and> [entry_at 20] \<noteq> []"
  by (simp add: Insertion_edit_def Insertion_loop.simps splice_def splice_rest_def
        entry_at_def newInsertion_of_def Let_def)

text \<open>
  C5 at the calls Upsert 10, Upsert 30, Upsert 20 on the empty list: the third call
  finds the entry at 30 at index 1, and the two \<^verbatim>\<open>splice\<close> calls of line 727 to 731
  lose that entry instead of keeping it behind the new one.
\<close>

theorem Upsert_between_loses_entry:
  "Insertion_calls [(False, 10, 5, ''h''), (False, 30, 5, ''h''), (False, 20, 5, ''h'')] []
     = Inr [entry_at 10, entry_at 20]"
  by (simp add: Insertion_edit_def Insertion_loop.simps splice_def splice_rest_def
        entry_at_def newInsertion_of_def)

text \<open>
  C7 at the list with times 20 and 10: the second entry does not exceed the first, and
  the call returns with no error collected. At the list with times 20 and \<open>-5\<close> the
  check of line 715 fires, and the call of the unbound \<^verbatim>\<open>append\<close> aborts the operation.
\<close>

theorem Validation_flags_nothing:
  "Insertion_edit False 30 5 ''h'' [entry_at 20, entry_at 10]
     = Inr ([], [entry_at 20, entry_at 10, entry_at 30])
   \<and> Insertion_edit False 30 5 ''h'' [entry_at 20, entry_at (- 5)] = Inl ReferenceError"
  by (simp add: Insertion_edit_def Insertion_loop.simps splice_def splice_rest_def
        entry_at_def newInsertion_of_def)

section \<open>Status\<close>

lemmas example_defs =
  example_period_def one_period_def example_meta_def example_world_def recording_world_def
  lro_reports_def empty_token_world_def no_api_world_def example_remote_def

lemmas Status_defs =
  Status_def Status_try_def Status_main_def Status_edge_def Status_lro_def LoadConf_def
  startsWith_def js_string_def js_index_def poll_state_def reconcile_def empty_status_def Let_def

lemma Status_main_only_SetNodes:
  "Status_main w conf st = (ev, st', out) \<Longrightarrow> e \<in> set ev \<Longrightarrow> \<exists>u. e = SetNodes u"
  by (auto simp: Status_main_def Let_def split: sum.splits option.splits)

lemma Status_lro_events:
  "Status_lro w stopLro tok lroh lf since u st = (ev, st', out) \<Longrightarrow> ev = [Got u]"
  by (auto simp: Status_lro_def Let_def split: sum.splits option.splits if_splits)



lemma Status_lro_http_error:
  "got w u = Inl (HTTPError code) \<Longrightarrow>
   Status_lro w stopLro tok lroh lf since u st = (ev, st', out) \<Longrightarrow>
     state st' = Some ''stopped'' \<and> out = Next ()"
  by (auto simp: Status_lro_def poll_state_def reconcile_def Let_def split: sum.splits if_splits)

lemma Status_try_events:
  assumes "Status_try w conf b st = (ev, st', out)" and "e \<in> set ev"
  shows "(\<exists>u. e = SetNodes u) \<or> (\<exists>u. e = Got u)"
proof -
  obtain ev1 st1 out1 where main: "Status_main w conf st = (ev1, st1, out1)"
    by (metis prod_cases3)
  show ?thesis
  proof (cases out1)
    case (Next p)
    obtain tok m where p: "p = (tok, m)" by (cases p)
    obtain st2 out2 where edge: "Status_edge w tok m st1 = (st2, out2)"
      by (metis prod.exhaust)
    show ?thesis
    proof (cases out2)
      case (Next q)
      obtain lroh lf since u where q: "q = (lroh, lf, since, u)" by (cases q)
      obtain ev3 st3 out3 where lro: "Status_lro w b tok lroh lf since u st2 = (ev3, st3, out3)"
        by (metis prod_cases3)
      from Status_lro_events [OF lro] have "ev3 = [Got u]" .
      with assms main \<open>out1 = Next p\<close> p edge Next q lro
      have "e \<in> set ev1 \<or> e = Got u" by (auto simp: Status_try_def)
      with Status_main_only_SetNodes [OF main] show ?thesis by blast
    next
      case (Thrown x)
      with assms main \<open>out1 = Next p\<close> p edge have "e \<in> set ev1" by (auto simp: Status_try_def)
      with Status_main_only_SetNodes [OF main] show ?thesis by blast
    next
      case Returned
      with assms main \<open>out1 = Next p\<close> p edge have "e \<in> set ev1" by (auto simp: Status_try_def)
      with Status_main_only_SetNodes [OF main] show ?thesis by blast
    qed
  next
    case (Thrown x)
    with assms main have "e \<in> set ev1" by (auto simp: Status_try_def)
    with Status_main_only_SetNodes [OF main] show ?thesis by blast
  next
    case Returned
    with assms main have "e \<in> set ev1" by (auto simp: Status_try_def)
    with Status_main_only_SetNodes [OF main] show ?thesis by blast
  qed
qed

lemma Status_writes_nothing:
  assumes "Status w n b = (ev, res)" and "e \<in> set ev"
  shows "\<not> metadata_write e"
proof (cases "LoadConf (liveconf w) n")
  case (Inl x)
  with assms show ?thesis by (simp add: Status_def)
next
  case (Inr conf)
  obtain ev' st out where run: "Status_try w conf b (empty_status \<lparr> name := Some n \<rparr>) = (ev', st, out)"
    by (metis prod_cases3)
  with assms Inr have "e \<in> set ev' \<or> (\<exists>x. e = ConsoleError x)"
    by (auto simp: Status_def split: step.splits)
  then show ?thesis
  proof
    assume "e \<in> set ev'"
    from Status_try_events [OF run this] show ?thesis by auto
  next
    assume "\<exists>x. e = ConsoleError x"
    then show ?thesis by auto
  qed
qed

lemma Status_polled:
  assumes "Status w name' stopLro = (events, Inr s)" and "Got u \<in> set events"
  shows "\<exists>conf ev1 st1 tok edgeMeta st2 lroh lf since out.
    LoadConf (liveconf w) name' = Inr conf
    \<and> Status_main w conf (empty_status \<lparr> name := Some name' \<rparr>) = (ev1, st1, Next (tok, edgeMeta))
    \<and> Status_edge w tok edgeMeta st1 = (st2, Next (lroh, lf, since, u))
    \<and> Status_lro w stopLro tok lroh lf since u st2 = ([Got u], s, out)"
proof -
  from assms(1) obtain conf where conf: "LoadConf (liveconf w) name' = Inr conf"
    by (auto simp: Status_def split: sum.splits)
  obtain ev st out where run: "Status_try w conf stopLro (empty_status \<lparr> name := Some name' \<rparr>) = (ev, st, out)"
    by (metis prod_cases3)
  with assms conf have g: "Got u \<in> set ev" and s: "st = s"
    by (auto simp: Status_def split: step.splits)
  obtain ev1 st1 out1 where main: "Status_main w conf (empty_status \<lparr> name := Some name' \<rparr>) = (ev1, st1, out1)"
    by (metis prod_cases3)
  from Status_main_only_SetNodes [OF main] have ng: "Got u \<notin> set ev1" by blast
  with run main g obtain tok edgeMeta where out1: "out1 = Next (tok, edgeMeta)"
    by (auto simp: Status_try_def split: step.splits)
  obtain st2 out2 where edge: "Status_edge w tok edgeMeta st1 = (st2, out2)"
    by (metis prod.exhaust)
  with run main g ng out1 obtain lroh lf since v where out2: "out2 = Next (lroh, lf, since, v)"
    by (auto simp: Status_try_def split: step.splits)
  obtain ev3 st3 out3 where lro: "Status_lro w stopLro tok lroh lf since v st2 = (ev3, st3, out3)"
    by (metis prod_cases3)
  from Status_lro_events [OF lro] have ev3: "ev3 = [Got v]" .
  with run main edge out1 out2 lro g ng s have "v = u" "st3 = s"
    by (auto simp: Status_try_def)
  with conf main out1 edge out2 lro ev3 show ?thesis by blast
qed

lemma Status_http_error_stopped:
  assumes "Status w name' stopLro = (events, Inr s)"
    and "Got u \<in> set events"
    and "got w u = Inl (HTTPError code)"
  shows "state s = Some ''stopped''"
proof -
  from Status_polled [OF assms(1,2)] obtain tok st2 lroh lf since out
    where "Status_lro w stopLro tok lroh lf since u st2 = ([Got u], s, out)"
    by blast
  from Status_lro_http_error [OF assms(3) this] show ?thesis by simp
qed

section \<open>The waiting loop\<close>

lemma wait_until_done:
  "state s0 = Some target \<Longrightarrow> wait_until target r n k tries s0 = ([], Inr (s0, tries, k))"
  by (simp add: wait_until.simps)

lemma wait_until_exhausted:
  "state s0 \<noteq> Some target \<Longrightarrow> tries \<le> 0
     \<Longrightarrow> wait_until target r n k tries s0 = ([], Inr (s0, tries - 1, k))"
  by (simp add: wait_until.simps)

lemma wait_until_step:
  "state s0 \<noteq> Some target \<Longrightarrow> 0 < tries \<Longrightarrow> Status (worlds r k) n False = (e, Inr s1)
     \<Longrightarrow> wait_until target r n k tries s0
           = (Sleep 1000 # e @ fst (wait_until target r n (Suc k) (tries - 1) s1),
              snd (wait_until target r n (Suc k) (tries - 1) s1))"
  by (subst wait_until.simps) (simp add: case_prod_beta)

text \<open>The loop after \<open>j\<close> polls that all returned and did not end it.\<close>

lemma wait_until_polls:
  assumes "\<forall>i<j. Status (worlds r (k + i)) n False = (ev (k + i), Inr (s (k + i)))"
    and "0 < j \<longrightarrow> state s0 \<noteq> Some target"
    and "\<forall>i. Suc i < j \<longrightarrow> state (s (k + i)) \<noteq> Some target"
    and "int j \<le> tries"
  shows "wait_until target r n k tries s0
           = (concat (map (\<lambda>i. Sleep 1000 # ev i) [k..<k + j])
                @ fst (wait_until target r n (k + j) (tries - int j)
                         (if j = 0 then s0 else s (k + j - 1))),
              snd (wait_until target r n (k + j) (tries - int j)
                     (if j = 0 then s0 else s (k + j - 1))))"
  using assms
proof (induction j arbitrary: k tries s0)
  case 0
  then show ?case by simp
next
  case (Suc j)
  from Suc.prems(1) have st: "Status (worlds r k) n False = (ev k, Inr (s k))"
    by (metis add.right_neutral zero_less_Suc)
  from Suc.prems have step: "wait_until target r n k tries s0
           = (Sleep 1000 # ev k @ fst (wait_until target r n (Suc k) (tries - 1) (s k)),
              snd (wait_until target r n (Suc k) (tries - 1) (s k)))"
    by (intro wait_until_step st) auto
  have a: "\<forall>i<j. Status (worlds r (Suc k + i)) n False = (ev (Suc k + i), Inr (s (Suc k + i)))"
    using Suc.prems(1) by (metis Suc_less_eq add_Suc_shift)
  have b: "0 < j \<longrightarrow> state (s k) \<noteq> Some target"
    using Suc.prems(3) by (metis Suc_less_eq add.right_neutral)
  have c: "\<forall>i. Suc i < j \<longrightarrow> state (s (Suc k + i)) \<noteq> Some target"
    using Suc.prems(3) by (metis Suc_less_eq add_Suc_shift)
  have d: "int j \<le> tries - 1" using Suc.prems(4) by simp
  have e: "(if j = 0 then s k else s (Suc k + j - 1)) = s (k + Suc j - 1)"
    by simp
  have f: "tries - 1 - int j = tries - int (Suc j)" by simp
  have g: "[k..<k + Suc j] = k # [Suc k..<Suc k + j]"
    by (simp add: upt_conv_Cons)
  show ?case
    unfolding step Suc.IH [OF a b c d] e f g by simp
qed

lemma start_and_wait_stop:
  "start_and_wait r n (OpString ''stop'') k st = ([], Inr (Some st))"
  by (simp add: start_and_wait_def)

lemma start_and_wait_first_event:
  "op' \<noteq> OpString ''stop'' \<Longrightarrow>
     \<exists>evs res. start_and_wait r n op' k st
        = (Call_CallBitcodeMethod (status_edge_write_token st) ''/live/start'' # evs, res)"
  by (auto simp: start_and_wait_def Let_def split: sum.splits prod.splits)

lemma StartOrStopOrReset_wrap:
  "StartOrStopOrReset_try r n op' = (evs, res) \<Longrightarrow>
     \<exists>tail v. StartOrStopOrReset r n op' = (evs @ tail, Inr v)
        \<and> (\<forall>x. res = Inr x \<longrightarrow> tail = [] \<and> v = x)"
  by (cases res) (auto simp: StartOrStopOrReset_def)

section \<open>Claims about the status derivation\<close>



text \<open>
  C2 as stated fails: with an empty edge write token the function still reads the
  metadata under that token, and when that document holds a recording period it polls
  the LRO and reports what the poll gives, here \<open>terminated\<close>.
\<close>

theorem Status_empty_token_counterexample:
  "Option.bind (Option.bind (live_recording
        (projr (ContentObjectMetadata empty_token_world ''ilib1'' (Some ''iq__1'') None)))
        fabric_config) edge_write_token = Some []
   \<and> fst (Status empty_token_world ''iq__1'' False)
       = [SetNodes ''https://node1'', Got ''https://node1/q//call/live/status/tlro1'']
   \<and> state (projr (snd (Status empty_token_world ''iq__1'' False))) = Some ''terminated''"
  by (simp add: example_defs Status_defs)

text \<open>
  C2, as amended. Whatever the edge write token, empty or not: when the main metadata
  holds the node API and the recording parameters and the metadata read under the token
  has no \<open>live_recording.recordings.recording_sequence\<close>, \<^verbatim>\<open>Status\<close> returns the state
  \<open>inactive\<close> and sends no request to the LRO.
\<close>

theorem Status_inactive_without_recording_sequence:
  assumes "LoadConf (liveconf w) name' = Inr conf"
    and "ContentObjectLibraryId w (objectId conf) = Inr libraryId"
    and "ContentObjectMetadata w libraryId (objectId conf) None = Inr mainMeta"
    and "live_recording mainMeta = Some lr"
    and "fabric_config lr = Some fc"
    and "ingress_node_api fc = Some api"
    and "recording_config lr = Some rc"
    and "recording_params rc = Some rp"
    and "ContentObjectMetadata w libraryId (objectId conf) (edge_write_token fc) = Inr edgeMeta"
    and "Option.bind (Option.bind (live_recording edgeMeta) recordings) recording_sequence = None"
  shows "\<exists>events s. Status w name' stopLro = (events, Inr s)
           \<and> state s = Some ''inactive'' \<and> (\<forall>u. Got u \<notin> set events)"
  using assms
  by (auto simp: Status_def Status_try_def Status_main_def Status_edge_def Let_def
        split: option.splits Option.bind_splits)

theorem Status_inactive_without_recording_sequence_witness:
  "fst (Status (example_world (example_meta (Some ''node1'') (Some []) None)
                              (example_meta (Some ''node1'') (Some []) None)
                              (Inr (Parsed (Some ''running''))) 1700000100999) ''iq__1'' False)
     = [SetNodes ''https://node1'']
   \<and> state (projr (snd (Status (example_world (example_meta (Some ''node1'') (Some []) None)
                              (example_meta (Some ''node1'') (Some []) None)
                              (Inr (Parsed (Some ''running''))) 1700000100999) ''iq__1'' False)))
     = Some ''inactive''"
proof -
  let ?m = "example_meta (Some ''node1'') (Some []) None"
  let ?w = "example_world ?m ?m (Inr (Parsed (Some ''running''))) 1700000100999"
  let ?fc = "\<lparr> ingress_node_api = Some ''node1'', edge_write_token = Some [] \<rparr>"
  let ?rp = "\<lparr> origin_url = Some ''udp://feed'' \<rparr>"
  let ?rc = "\<lparr> recording_params = Some ?rp \<rparr>"
  let ?lr = "\<lparr> fabric_config = Some ?fc, recording_config = Some ?rc, recordings = None,
               playout_config = Some \<lparr> interleaves = None \<rparr> \<rparr>"
  let ?conf = "\<lparr> objectId = Some ''iq__1'' \<rparr>"
  have 1: "LoadConf (liveconf ?w) ''iq__1'' = Inr ?conf"
    by (simp add: example_defs LoadConf_def startsWith_def)
  have 2: "ContentObjectLibraryId ?w (objectId ?conf) = Inr ''ilib1''"
    by (simp add: example_defs)
  have 3: "ContentObjectMetadata ?w ''ilib1'' (objectId ?conf) None = Inr ?m"
    by (simp add: example_defs)
  have 4: "live_recording ?m = Some ?lr" by (simp add: example_defs)
  have 5: "fabric_config ?lr = Some ?fc" by simp
  have 6: "ingress_node_api ?fc = Some ''node1''" by simp
  have 7: "recording_config ?lr = Some ?rc" by simp
  have 8: "recording_params ?rc = Some ?rp" by simp
  have 9: "ContentObjectMetadata ?w ''ilib1'' (objectId ?conf) (edge_write_token ?fc) = Inr ?m"
    by (simp add: example_defs)
  have 10: "Option.bind (Option.bind (live_recording ?m) recordings) recording_sequence = None"
    by (simp add: example_defs)
  from Status_inactive_without_recording_sequence [OF 1 2 3 4 5 6 7 8 9 10, of False]
  have "\<exists>events s. Status ?w ''iq__1'' False = (events, Inr s)
           \<and> state s = Some ''inactive'' \<and> (\<forall>u. Got u \<notin> set events)" .
  moreover have "fst (Status ?w ''iq__1'' False) = [SetNodes ''https://node1'']"
    by (simp add: example_defs Status_defs)
  ultimately show ?thesis by auto
qed

text \<open>
  C8 as stated fails: without \<open>ingress_node_api\<close> the call returns a status object.
\<close>

theorem Status_missing_node_api_counterexample:
  "Status no_api_world ''iq__1'' False
     = ([ConsoleError TypeError],
        Inr (empty_status \<lparr> name := Some ''iq__1'', library_id := Some ''ilib1'',
                            object_id := Some ''iq__1'' \<rparr>))"
  by (simp add: example_defs Status_defs)

text \<open>
  C8, as amended. When the main metadata has no
  \<open>live_recording.fabric_config.ingress_node_api\<close>, no exception leaves \<^verbatim>\<open>Status\<close>:
  the TypeError of line 99 is caught and printed, and the call returns the status
  object with the name, the library id and the object id only, so without a state;
  no node is selected and no request is sent.
\<close>

theorem Status_missing_node_api:
  assumes "LoadConf (liveconf w) name' = Inr conf"
    and "ContentObjectLibraryId w (objectId conf) = Inr libraryId"
    and "ContentObjectMetadata w libraryId (objectId conf) None = Inr mainMeta"
    and "Option.bind (Option.bind (live_recording mainMeta) fabric_config) ingress_node_api = None"
  shows "Status w name' stopLro
           = ([ConsoleError TypeError],
              Inr (empty_status \<lparr> name := Some name', library_id := Some libraryId,
                                  object_id := objectId conf \<rparr>))"
  using assms
  by (auto simp: Status_def Status_try_def Status_main_def Let_def
        split: option.splits Option.bind_splits)

theorem Status_missing_node_api_witness:
  "state (projr (snd (Status no_api_world ''iq__1'' True))) = None
   \<and> fst (Status no_api_world ''iq__1'' True) = [ConsoleError TypeError]"
proof -
  have "Status no_api_world ''iq__1'' True
           = ([ConsoleError TypeError],
              Inr (empty_status \<lparr> name := Some ''iq__1'', library_id := Some ''ilib1'',
                                  object_id := objectId \<lparr> objectId = Some ''iq__1'' \<rparr> \<rparr>))"
    by (rule Status_missing_node_api [where mainMeta = "example_meta None (Some ''tqw1'') None"])
       (simp_all add: example_defs LoadConf_def startsWith_def)
  then show ?thesis by (simp add: empty_status_def)
qed

text \<open>
  C9 at a poll that fails with no response (a network failure): the handler of line 170
  reads \<^verbatim>\<open>error.response.statusCode\<close>, throws a TypeError itself, and the status
  object comes back without a state instead of the state \<open>stopped\<close>.
\<close>

theorem Status_network_failure_no_state:
  "Status (recording_world 1700000090000000 (Inl RequestError)) ''iq__1'' False
     = ([SetNodes ''https://node1'', Got ''https://node1/q/tqw1/call/live/status/tlro1'',
         ConsoleError TypeError],
        Inr (empty_status
          \<lparr> name := Some ''iq__1'', library_id := Some ''ilib1'', object_id := Some ''iq__1'',
            fabric_api := Some ''https://node1'', url := Some ''udp://feed'',
            status_edge_write_token := Some ''tqw1'', stream_id := Some ''tqw1'',
            recording_period_sequence := Some 1, tlro := Some ''tlro1'',
            recording_period := Some
              \<lparr> activation_time_epoch_sec = 1700000000,
                period_start_time_epoch_sec = 1700000010,
                period_end_time_epoch_sec = 0, video_parts = 3,
                video_last_part_finalized_epoch_sec = 1700000090,
                video_since_last_finalize_sec = 10 \<rparr>,
            lro_status_url := Some ''https://node1/q/tqw1/call/live/status/tlro1'',
            status_insertions := Some [], state := None \<rparr>))"
  by (simp add: example_defs Status_defs)

section \<open>Claims about create, stop and reset\<close>

text \<open>
  C4. When the status that \<^verbatim>\<open>StreamCreate\<close> derives has a state that is neither
  \<open>inactive\<close> nor \<open>terminated\<close>, the call returns, without an exception, the object
  with that state and the error text, and its events are those of the status derivation,
  none of which writes metadata.
\<close>

theorem StreamCreate_conflict:
  assumes "Status (worlds r 0) name' False = (events, Inr s)"
    and "state s \<noteq> Some ''inactive''" and "state s \<noteq> Some ''terminated''"
  shows "StreamCreate r name' start show_curl
           = (events,
              Inr (Some (empty_status
                \<lparr> state := state s,
                  error := Some ''stream still active - must terminate first'' \<rparr>)))
         \<and> (\<forall>e\<in>set events. \<not> metadata_write e)"
  using assms Status_writes_nothing [OF assms(1)] by (simp add: StreamCreate_def)

theorem StreamCreate_conflict_witness:
  "StreamCreate (example_remote (\<lambda>k. lro_reports ''running'')) ''iq__1'' True False
     = ([SetNodes ''https://node1'', Got ''https://node1/q/tqw1/call/live/status/tlro1''],
        Inr (Some (empty_status
          \<lparr> state := Some ''running'',
            error := Some ''stream still active - must terminate first'' \<rparr>)))"
proof -
  let ?r = "example_remote (\<lambda>k. lro_reports ''running'')"
  have "\<exists>s. Status (worlds ?r 0) ''iq__1'' False
          = ([SetNodes ''https://node1'', Got ''https://node1/q/tqw1/call/live/status/tlro1''],
             Inr s) \<and> state s = Some ''running''"
    by (simp add: example_defs Status_defs)
  then obtain s where s: "Status (worlds ?r 0) ''iq__1'' False
          = ([SetNodes ''https://node1'', Got ''https://node1/q/tqw1/call/live/status/tlro1''],
             Inr s)" and st: "state s = Some ''running''" by blast
  from StreamCreate_conflict [OF s, of True False] st show ?thesis by simp
qed

text \<open>
  C3. A stop or a reset finds the session active, and the calls of \<^verbatim>\<open>Status\<close> number 0
  to 10 return the statuses \<open>s 0\<close> to \<open>s 10\<close> with the events \<open>ev 0\<close> to \<open>ev 10\<close>.
  If none of \<open>s 1\<close> to \<open>s 10\<close> is \<open>terminated\<close>, the operation makes the stop call and
  exactly ten polls, each after a sleep of 1000 ms, and returns \<open>s 10\<close>, with no
  exception. If \<open>s n\<close> is the first that is \<open>terminated\<close>, the operation makes exactly
  \<open>n\<close> such polls; whatever follows them starts with the start call (a reset), and
  nothing follows them for a stop, which returns \<open>s n\<close>.
\<close>

theorem stop_or_reset_waits_for_terminated:
  assumes polls: "\<forall>k\<le>10. Status (worlds r k) name' False = (ev k, Inr (s k))"
    and active: "state (s 0) \<noteq> Some ''terminated'' \<and> state (s 0) \<noteq> Some ''inactive''"
    and op: "op' = OpString ''stop'' \<or> op' = OpString ''reset''"
  shows
    "((\<forall>k\<in>{1..10}. state (s k) \<noteq> Some ''terminated'') \<longrightarrow>
        StartOrStopOrReset r name' op'
          = (ev 0 @ Call_CallBitcodeMethod (status_edge_write_token (s 0))
                      (''/live/stop/'' @ js_string (tlro (s 0)))
               # concat (map (\<lambda>k. Sleep 1000 # ev k) [1..<11]),
             Inr (Some (s 10))))
     \<and> (\<forall>n\<in>{1..10}.
          state (s n) = Some ''terminated'' \<and> (\<forall>k<n. state (s k) \<noteq> Some ''terminated'') \<longrightarrow>
          (\<exists>rest v. StartOrStopOrReset r name' op'
               = (ev 0 @ Call_CallBitcodeMethod (status_edge_write_token (s 0))
                           (''/live/stop/'' @ js_string (tlro (s 0)))
                    # concat (map (\<lambda>k. Sleep 1000 # ev k) [1..<Suc n]) @ rest,
                  Inr v)
             \<and> (op' = OpString ''stop'' \<or> n = 10 \<longrightarrow> rest = [] \<and> v = Some (s n))
             \<and> (\<forall>e\<in>set (take 1 rest).
                   e = Call_CallBitcodeMethod (status_edge_write_token (s n)) ''/live/start'')))"
proof (intro conjI impI ballI)
  let ?stop = "Call_CallBitcodeMethod (status_edge_write_token (s 0))
                 (''/live/stop/'' @ js_string (tlro (s 0)))"
  from polls have s0: "Status (worlds r 0) name' False = (ev 0, Inr (s 0))" by simp
  from op have nstart: "op' \<noteq> OpString ''start''" by auto
  {
    assume never: "\<forall>k\<in>{1..10}. state (s k) \<noteq> Some ''terminated''"
    have "wait_until ''terminated'' r name' 1 10 (s 0)
            = (concat (map (\<lambda>i. Sleep 1000 # ev i) [1..<1 + 10])
                 @ fst (wait_until ''terminated'' r name' (1 + 10) (10 - int (10::nat))
                          (if (10::nat) = 0 then s 0 else s (1 + 10 - 1))),
               snd (wait_until ''terminated'' r name' (1 + 10) (10 - int (10::nat))
                      (if (10::nat) = 0 then s 0 else s (1 + 10 - 1))))"
      using polls active never by (intro wait_until_polls) auto
    moreover have "wait_until ''terminated'' r name' 11 0 (s 10) = ([], Inr (s 10, - 1, 11))"
      using never by (simp add: wait_until_exhausted)
    ultimately have w: "wait_until ''terminated'' r name' 1 10 (s 0)
            = (concat (map (\<lambda>i. Sleep 1000 # ev i) [1..<11]), Inr (s 10, - 1, 11))"
      by simp
    show "StartOrStopOrReset r name' op'
          = (ev 0 @ ?stop # concat (map (\<lambda>k. Sleep 1000 # ev k) [1..<11]), Inr (Some (s 10)))"
      using s0 active nstart w
      by (simp add: StartOrStopOrReset_def StartOrStopOrReset_try_def)
  next
    fix n :: nat
    assume n: "n \<in> {1..10}"
      and reach: "state (s n) = Some ''terminated'' \<and> (\<forall>k<n. state (s k) \<noteq> Some ''terminated'')"
    let ?polls = "concat (map (\<lambda>k. Sleep 1000 # ev k) [1..<Suc n])"
    have "wait_until ''terminated'' r name' 1 10 (s 0)
            = (concat (map (\<lambda>i. Sleep 1000 # ev i) [1..<1 + n])
                 @ fst (wait_until ''terminated'' r name' (1 + n) (10 - int n)
                          (if n = 0 then s 0 else s (1 + n - 1))),
               snd (wait_until ''terminated'' r name' (1 + n) (10 - int n)
                      (if n = 0 then s 0 else s (1 + n - 1))))"
      using polls active n reach by (intro wait_until_polls) auto
    moreover have "wait_until ''terminated'' r name' (Suc n) (10 - int n) (s n)
                     = ([], Inr (s n, 10 - int n, Suc n))"
      using reach by (simp add: wait_until_done)
    ultimately have w: "wait_until ''terminated'' r name' 1 10 (s 0)
                          = (?polls, Inr (s n, 10 - int n, Suc n))"
      using n by simp
    show "\<exists>rest v. StartOrStopOrReset r name' op'
               = (ev 0 @ ?stop # ?polls @ rest, Inr v)
             \<and> (op' = OpString ''stop'' \<or> n = 10 \<longrightarrow> rest = [] \<and> v = Some (s n))
             \<and> (\<forall>e\<in>set (take 1 rest).
                   e = Call_CallBitcodeMethod (status_edge_write_token (s n)) ''/live/start'')"
    proof (cases "n = 10")
      case True
      with s0 active nstart w
      have "StartOrStopOrReset r name' op' = (ev 0 @ ?stop # ?polls @ [], Inr (Some (s n)))"
        by (simp add: StartOrStopOrReset_def StartOrStopOrReset_try_def)
      then show ?thesis by (intro exI [of _ "[]"] exI [of _ "Some (s n)"]) simp
    next
      case False
      with n have lt: "\<not> 10 - int n \<le> 0" by simp
      show ?thesis
      proof (cases "op' = OpString ''stop''")
        case True
        with s0 active w lt
        have "StartOrStopOrReset r name' op' = (ev 0 @ ?stop # ?polls @ [], Inr (Some (s n)))"
          by (simp add: StartOrStopOrReset_def StartOrStopOrReset_try_def start_and_wait_stop)
        then show ?thesis by (intro exI [of _ "[]"] exI [of _ "Some (s n)"]) simp
      next
        case nstop: False
        from start_and_wait_first_event [OF nstop] obtain evs res
          where sw: "start_and_wait r name' op' (Suc n) (s n)
                       = (Call_CallBitcodeMethod (status_edge_write_token (s n)) ''/live/start''
                            # evs, res)"
          by blast
        let ?start = "Call_CallBitcodeMethod (status_edge_write_token (s n)) ''/live/start''"
        from s0 active nstart w lt sw
        have "StartOrStopOrReset_try r name' op'
                = (ev 0 @ ?stop # ?polls @ ?start # evs, res)"
          by (simp add: StartOrStopOrReset_try_def)
        from StartOrStopOrReset_wrap [OF this] obtain tail v
          where "StartOrStopOrReset r name' op'
                   = ((ev 0 @ ?stop # ?polls @ ?start # evs) @ tail, Inr v)"
          by blast
        then have "StartOrStopOrReset r name' op'
                     = (ev 0 @ ?stop # ?polls @ (?start # evs @ tail), Inr v)"
          by simp
        with nstop False show ?thesis
          by (intro exI [of _ "?start # evs @ tail"] exI [of _ v]) simp
      qed
    qed
  }
qed

theorem stop_or_reset_waits_for_terminated_witness:
  "fst (StartOrStopOrReset (example_remote (\<lambda>k. lro_reports ''running'')) ''iq__1''
          (OpString ''reset''))
     = [SetNodes ''https://node1'', Got ''https://node1/q/tqw1/call/live/status/tlro1'']
       @ Call_CallBitcodeMethod (Some ''tqw1'') ''/live/stop/tlro1''
       # concat (replicate 10
           [Sleep 1000, SetNodes ''https://node1'',
            Got ''https://node1/q/tqw1/call/live/status/tlro1''])
   \<and> map_option state (projr (snd (StartOrStopOrReset
         (example_remote (\<lambda>k. lro_reports ''running'')) ''iq__1'' (OpString ''reset''))))
     = Some (Some ''running'')
   \<and> fst (StartOrStopOrReset
          (example_remote (\<lambda>k. lro_reports (if k < 4 then ''running'' else ''terminated'')))
          ''iq__1'' (OpString ''stop''))
     = [SetNodes ''https://node1'', Got ''https://node1/q/tqw1/call/live/status/tlro1'']
       @ Call_CallBitcodeMethod (Some ''tqw1'') ''/live/stop/tlro1''
       # concat (replicate 4
           [Sleep 1000, SetNodes ''https://node1'',
            Got ''https://node1/q/tqw1/call/live/status/tlro1''])
   \<and> map_option state (projr (snd (StartOrStopOrReset
         (example_remote (\<lambda>k. lro_reports (if k < 4 then ''running'' else ''terminated'')))
         ''iq__1'' (OpString ''stop''))))
     = Some (Some ''terminated'')"
proof -
  let ?P = "[SetNodes ''https://node1'', Got ''https://node1/q/tqw1/call/live/status/tlro1'']"
  let ?stuck = "example_remote (\<lambda>k. lro_reports ''running'')"
  let ?conv = "example_remote (\<lambda>k. lro_reports (if k < 4 then ''running'' else ''terminated''))"
  have "\<exists>s. Status (lro_reports ''running'') ''iq__1'' False = (?P, Inr s)
          \<and> state s = Some ''running'' \<and> status_edge_write_token s = Some ''tqw1''
          \<and> tlro s = Some ''tlro1''"
    by (simp add: example_defs Status_defs)
  then obtain a where a: "Status (lro_reports ''running'') ''iq__1'' False = (?P, Inr a)"
    "state a = Some ''running''" "status_edge_write_token a = Some ''tqw1''"
    "tlro a = Some ''tlro1''"
    by blast
  have "\<exists>s. Status (lro_reports ''terminated'') ''iq__1'' False = (?P, Inr s)
          \<and> state s = Some ''terminated''"
    by (simp add: example_defs Status_defs)
  then obtain b where b: "Status (lro_reports ''terminated'') ''iq__1'' False = (?P, Inr b)"
    "state b = Some ''terminated''"
    by blast
  have 1: "\<forall>k\<le>10. Status (worlds ?stuck k) ''iq__1'' False = ((\<lambda>k. ?P) k, Inr ((\<lambda>k. a) k))"
    using a by (simp add: example_remote_def)
  have 2: "state ((\<lambda>k. a) (0::nat)) \<noteq> Some ''terminated''
           \<and> state ((\<lambda>k. a) (0::nat)) \<noteq> Some ''inactive''"
    using a by simp
  have 3: "OpString ''reset'' = OpString ''stop'' \<or> OpString ''reset'' = OpString ''reset''"
    by simp
  have 4: "\<forall>k\<in>{1..10::nat}. state ((\<lambda>k. a) k) \<noteq> Some ''terminated''"
    using a by simp
  from stop_or_reset_waits_for_terminated [OF 1 2 3] 4
  have stuck: "StartOrStopOrReset ?stuck ''iq__1'' (OpString ''reset'')
          = (?P @ Call_CallBitcodeMethod (status_edge_write_token a)
                      (''/live/stop/'' @ js_string (tlro a))
               # concat (map (\<lambda>k. Sleep 1000 # ?P) [1..<11]),
             Inr (Some a))"
    by blast
  let ?ss = "\<lambda>k::nat. if k < 4 then a else b"
  have 5: "\<forall>k\<le>10. Status (worlds ?conv k) ''iq__1'' False = ((\<lambda>k. ?P) k, Inr (?ss k))"
    using a b by (simp add: example_remote_def)
  have 6: "state (?ss 0) \<noteq> Some ''terminated'' \<and> state (?ss 0) \<noteq> Some ''inactive''"
    using a by simp
  have 7: "OpString ''stop'' = OpString ''stop'' \<or> OpString ''stop'' = OpString ''reset''"
    by simp
  have 8: "(4::nat) \<in> {1..10}" by simp
  have 9: "state (?ss 4) = Some ''terminated'' \<and> (\<forall>k<4. state (?ss k) \<noteq> Some ''terminated'')"
    using a b by simp
  from stop_or_reset_waits_for_terminated [OF 5 6 7] 8 9
  have "\<exists>rest v. StartOrStopOrReset ?conv ''iq__1'' (OpString ''stop'')
               = (?P @ Call_CallBitcodeMethod (status_edge_write_token (?ss 0))
                           (''/live/stop/'' @ js_string (tlro (?ss 0)))
                    # concat (map (\<lambda>k. Sleep 1000 # ?P) [1..<Suc 4]) @ rest,
                  Inr v)
             \<and> (OpString ''stop'' = OpString ''stop'' \<or> (4::nat) = 10
                   \<longrightarrow> rest = [] \<and> v = Some (?ss 4))"
    by blast
  then have conv: "StartOrStopOrReset ?conv ''iq__1'' (OpString ''stop'')
               = (?P @ Call_CallBitcodeMethod (status_edge_write_token a)
                           (''/live/stop/'' @ js_string (tlro a))
                    # concat (map (\<lambda>k. Sleep 1000 # ?P) [1..<Suc 4]),
                  Inr (Some b))"
    by auto
  have r10: "[1..<11] = [1, 2, 3, 4, 5, 6, 7, 8, 9, 10::nat]" by (simp add: upt_rec)
  have r4: "[1..<Suc 4] = [1, 2, 3, 4::nat]" by (simp add: upt_rec)
  have n10: "replicate 10 x = [x, x, x, x, x, x, x, x, x, x]" for x :: "event list"
    by (simp add: numeral_eq_Suc)
  have n4: "replicate 4 x = [x, x, x, x]" for x :: "event list"
    by (simp add: numeral_eq_Suc)
  show ?thesis
    unfolding stuck conv r10 r4 n10 n4 using a b by (simp add: js_string_def)
qed

end
